theory Spec2Isabelle
  imports Complex_Main "HOL-Library.Char_ord" "HOL-Library.List_Lexorder" "HOL-Library.Multiset"
    "HOL-Library.Sublist" "HOL-Library.Word"
begin

unbundle bit_operations_syntax

section \<open>Go library functions used by the code\<close>

text \<open>
  Go strings are byte sequences: \<^typ>\<open>string\<close> (a \<^typ>\<open>char\<close> list, one \<^typ>\<open>char\<close> per
  byte). Go compares strings byte-wise and lexicographically, which is the order that
  \<open>Char_ord\<close> and \<open>List_Lexorder\<close> give to \<^typ>\<open>string\<close>.
\<close>

subsection \<open>strconv.ParseUint(s, 10, 64)\<close>

text \<open>
  The standard library's loop, at base 10 and bit size 64: every byte must be a digit
  below the base, and the accumulator is checked against \<open>cutoff\<close> before the
  multiplication and for wrap-around after the addition.
\<close>

datatype NumError = ErrSyntax | ErrRange

definition lower :: "8 word \<Rightarrow> 8 word" where
  "lower c = c OR 32"

definition digit_of :: "char \<Rightarrow> 8 word option" where
  "digit_of ch =
     (let c = (of_char ch :: 8 word) in
      if 48 \<le> c \<and> c \<le> 57 then Some (c - 48)
      else if 97 \<le> lower c \<and> lower c \<le> 122 then Some (lower c - 97 + 10)
      else None)"

definition cutoff :: "64 word" where
  "cutoff = 1844674407370955162"

definition maxVal :: "64 word" where
  "maxVal = push_bit 64 1 - 1"

fun ParseUint_loop :: "64 word \<Rightarrow> string \<Rightarrow> NumError + 64 word" where
  "ParseUint_loop n [] = Inr n"
| "ParseUint_loop n (ch # s) =
     (case digit_of ch of
        None \<Rightarrow> Inl ErrSyntax
      | Some d \<Rightarrow>
          if d \<ge> 10 then Inl ErrSyntax
          else if n \<ge> cutoff then Inl ErrRange
          else
            (let n' = n * 10; n1 = n' + ucast d in
             if n1 < n' \<or> n1 > maxVal then Inl ErrRange
             else ParseUint_loop n1 s))"

definition ParseUint :: "string \<Rightarrow> NumError + 64 word" where
  "ParseUint s = (if s = [] then Inl ErrSyntax else ParseUint_loop 0 s)"

subsection \<open>filepath.IsAbs\<close>

text \<open>On Unix, a path is absolute when it starts with a slash.\<close>

definition IsAbs :: "string \<Rightarrow> bool" where
  "IsAbs path = (case path of [] \<Rightarrow> False | c # _ \<Rightarrow> c = CHR ''/'')"

section \<open>pkg/api/secret.go\<close>

record SecretSpec =
  Name :: string
  Content :: string

record SecretMount =
  SecretName :: string
  ContainerPath :: string
  Uid :: string
  Gid :: string
  Mode :: "32 word option"

datatype api_error =
    SecretNameRequired
  | InvalidUid string NumError
  | UidTooHigh string
  | InvalidGid string NumError
  | GidTooHigh string
  | MountSourceRequired
  | ContainerPathNotAbsolute
  | InvalidSecret api_error
  | DuplicateSecretName string
  | InvalidSecretMount api_error
  | MountSourceUndefined string

definition SecretSpec_Validate :: "SecretSpec \<Rightarrow> api_error option" where
  "SecretSpec_Validate s = (if Name s = [] then Some SecretNameRequired else None)"

text \<open>
  \<open>GetNumericUid\<close> returns a pointer and an error: \<open>Inr None\<close> is \<open>(nil, nil)\<close>.
  \<open>int(uid) < 0\<close> reads the 64-bit value as a signed integer (\<open>int\<close> has 64 bits on the
  64-bit platforms).
\<close>

definition GetNumericUid :: "SecretMount \<Rightarrow> api_error + 64 word option" where
  "GetNumericUid s =
     (if Uid s = [] then Inr None
      else case ParseUint (Uid s) of
        Inl err \<Rightarrow> Inl (InvalidUid (Uid s) err)
      | Inr uid \<Rightarrow>
          if sint uid < 0 then Inl (UidTooHigh (Uid s))
          else Inr (Some uid))"

definition GetNumericGid :: "SecretMount \<Rightarrow> api_error + 64 word option" where
  "GetNumericGid s =
     (if Gid s = [] then Inr None
      else case ParseUint (Gid s) of
        Inl err \<Rightarrow> Inl (InvalidGid (Gid s) err)
      | Inr gid \<Rightarrow>
          if sint gid < 0 then Inl (GidTooHigh (Gid s))
          else Inr (Some gid))"

definition SecretMount_Validate :: "SecretMount \<Rightarrow> api_error option" where
  "SecretMount_Validate s =
     (if SecretName s = [] then Some MountSourceRequired
      else case GetNumericUid s of
        Inl err \<Rightarrow> Some err
      | Inr _ \<Rightarrow>
         (case GetNumericGid s of
            Inl err \<Rightarrow> Some err
          | Inr _ \<Rightarrow>
              if ContainerPath s \<noteq> [] \<and> \<not> IsAbs (ContainerPath s)
              then Some ContainerPathNotAbsolute
              else None))"

text \<open>
  \<open>ValidateSecretsAndMounts\<close>: the first loop fills \<open>secretMap\<close> (a set of names, as a
  map to the empty struct), the second loop reads it.
\<close>

fun validate_secrets_loop ::
  "(string \<rightharpoonup> unit) \<Rightarrow> SecretSpec list \<Rightarrow> api_error + (string \<rightharpoonup> unit)" where
  "validate_secrets_loop secretMap [] = Inr secretMap"
| "validate_secrets_loop secretMap (secret # rest) =
     (case SecretSpec_Validate secret of
        Some err \<Rightarrow> Inl (InvalidSecret err)
      | None \<Rightarrow>
          if secretMap (Name secret) \<noteq> None then Inl (DuplicateSecretName (Name secret))
          else validate_secrets_loop (secretMap(Name secret \<mapsto> ())) rest)"

fun validate_mounts_loop ::
  "(string \<rightharpoonup> unit) \<Rightarrow> SecretMount list \<Rightarrow> api_error option" where
  "validate_mounts_loop secretMap [] = None"
| "validate_mounts_loop secretMap (mount # rest) =
     (case SecretMount_Validate mount of
        Some err \<Rightarrow> Some (InvalidSecretMount err)
      | None \<Rightarrow>
          if secretMap (SecretName mount) = None
          then Some (MountSourceUndefined (SecretName mount))
          else validate_mounts_loop secretMap rest)"

definition ValidateSecretsAndMounts ::
  "SecretSpec list \<Rightarrow> SecretMount list \<Rightarrow> api_error option" where
  "ValidateSecretsAndMounts secrets mounts =
     (case validate_secrets_loop Map.empty secrets of
        Inl err \<Rightarrow> Some err
      | Inr secretMap \<Rightarrow> validate_mounts_loop secretMap mounts)"

section \<open>pkg/client/compose/secret.go\<close>

text \<open>
  The fields of compose-go's \<open>types.SecretConfig\<close> and \<open>types.ServiceSecretConfig\<close> that
  the code reads. \<open>types.FileMode\<close> is a 64-bit integer, \<open>os.FileMode\<close> a 32-bit one.
\<close>

record SecretConfig =
  File :: string
  ConfigContent :: string
  External :: bool

record ServiceSecretConfig =
  Source :: string
  Target :: string
  UID :: string
  GID :: string
  RefMode :: "64 word option"

text \<open>
  The operating system, as far as the code uses it: \<open>os.ReadFile\<close> (a read fails with the
  system's error or returns the file's bytes) and \<open>filepath.Join\<close> of two path elements.
\<close>

type_synonym os_error = string

record os_env =
  ReadFile :: "string \<Rightarrow> os_error + string"
  Join :: "string \<Rightarrow> string \<Rightarrow> string"

datatype compose_error =
    ExternalSecretsNotSupported string
  | ReadSecretFromFile string os_error
  | SecretNotFound string

text \<open>
  The loop of \<open>secretSpecsFromCompose\<close>, with the two slices it appends to as
  accumulators. Every error return is \<open>nil, nil, err\<close>.
\<close>

fun secretSpecs_loop ::
  "os_env \<Rightarrow> (string \<rightharpoonup> SecretConfig) \<Rightarrow> string \<Rightarrow> SecretSpec list \<Rightarrow> SecretMount list \<Rightarrow>
   ServiceSecretConfig list \<Rightarrow> SecretSpec list \<times> SecretMount list \<times> compose_error option" where
  "secretSpecs_loop env secrets workingDir secretSpecs secretMounts [] =
     (secretSpecs, secretMounts, None)"
| "secretSpecs_loop env secrets workingDir secretSpecs secretMounts (serviceSecret # rest) =
     (case secrets (Source serviceSecret) of
        None \<Rightarrow> ([], [], Some (SecretNotFound (Source serviceSecret)))
      | Some projectSecret \<Rightarrow>
          if External projectSecret
          then ([], [], Some (ExternalSecretsNotSupported (Source serviceSecret)))
          else
            (let spec = \<lparr>Name = Source serviceSecret, Content = ConfigContent projectSecret\<rparr> in
             case (if File projectSecret \<noteq> [] then
                     (let secretPath =
                            (if \<not> IsAbs (File projectSecret)
                             then Join env workingDir (File projectSecret)
                             else File projectSecret)
                      in case ReadFile env secretPath of
                           Inl err \<Rightarrow> Inl (ReadSecretFromFile (File projectSecret) err)
                         | Inr fileContent \<Rightarrow> Inr (spec\<lparr>Content := fileContent\<rparr>))
                   else Inr spec) of
               Inl err \<Rightarrow> ([], [], Some err)
             | Inr spec \<Rightarrow>
                 (let target =
                        (if Target serviceSecret = []
                         then ''/run/secrets/'' @ Source serviceSecret
                         else Target serviceSecret);
                      mount = \<lparr>SecretName = Name spec, ContainerPath = target,
                               Uid = UID serviceSecret, Gid = GID serviceSecret,
                               Mode = map_option ucast (RefMode serviceSecret)\<rparr>
                  in secretSpecs_loop env secrets workingDir
                       (secretSpecs @ [spec]) (secretMounts @ [mount]) rest)))"

definition secretSpecsFromCompose ::
  "os_env \<Rightarrow> (string \<rightharpoonup> SecretConfig) \<Rightarrow> ServiceSecretConfig list \<Rightarrow> string \<Rightarrow>
   SecretSpec list \<times> SecretMount list \<times> compose_error option" where
  "secretSpecsFromCompose env secrets serviceSecrets workingDir =
     secretSpecs_loop env secrets workingDir [] [] serviceSecrets"

section \<open>pkg/client/compose/warnings.go\<close>

record Warning =
  Service :: string
  Key :: string
  Message :: string

text \<open>
  The fields of compose-go's \<open>types.DeployConfig\<close> and \<open>types.ServiceConfig\<close> that occur
  in the checks, plus the two deploy fields that are never checked (\<open>Replicas\<close>, \<open>Order\<close>).
  A pointer is an \<open>option\<close>. A slice or map of which the code reads only the length is a
  list; the keys of \<open>Networks\<close> are read, so it is an association list. The slice
  \<open>Constraints\<close> is compared with \<open>nil\<close>, so \<open>None\<close> is the nil slice and \<open>Some []\<close> the
  empty one. The two \<open>float32\<close> fields are only compared with zero.
\<close>

record Placement =
  Constraints :: "string list option"
  Preferences :: "string list"

record UpdateConfig =
  Parallelism :: "64 word option"
  Delay :: int
  FailureAction :: string
  Monitor :: int
  MaxFailureRatio :: real
  Order :: string

record DeployConfig =
  Replicas :: "int option"
  DeployLabels :: "(string \<times> string) list"
  UpdateConfig :: "UpdateConfig option"
  RollbackConfig :: "UpdateConfig option"
  RestartPolicy :: "unit option"
  EndpointMode :: string
  Placement :: Placement

record ServiceConfig =
  Build :: "unit option"
  ContainerName :: "string"
  DependsOn :: "(string \<times> string) list"
  Links :: "string list"
  Networks :: "(string \<times> unit option) list"
  NetworkMode :: "string"
  Restart :: "string"
  Secrets :: "ServiceSecretConfig list"
  Profiles :: "string list"
  ExternalLinks :: "string list"
  VolumesFrom :: "string list"
  Develop :: "unit option"
  Hostname :: "string"
  DNS :: "string list"
  DNSOpts :: "string list"
  DNSSearch :: "string list"
  ExtraHosts :: "(string \<times> string) list"
  SecurityOpt :: "string list"
  Platform :: "string"
  WorkingDir :: "string"
  Tmpfs :: "string list"
  ReadOnly :: "bool"
  ShmSize :: "int"
  CPUSet :: "string"
  MemSwapLimit :: "int"
  Pid :: "string"
  Ipc :: "string"
  Uts :: "string"
  UserNSMode :: "string"
  CgroupParent :: "string"
  Cgroup :: "string"
  Isolation :: "string"
  Runtime :: "string"
  StopSignal :: "string"
  StopGracePeriod :: "int option"
  MacAddress :: "string"
  Tty :: "bool"
  StdinOpen :: "bool"
  OomKillDisable :: "bool"
  OomScoreAdj :: "int"
  PidsLimit :: "int"
  StorageOpt :: "(string \<times> string) list"
  DeviceCgroupRules :: "string list"
  CredentialSpec :: "unit option"
  GroupAdd :: "string list"
  BlkioConfig :: "unit option"
  CPUCount :: "int"
  CPUPercent :: "real"
  CPUPeriod :: "int"
  CPUQuota :: "int"
  CPURTPeriod :: "int"
  CPURTRuntime :: "int"
  CPUShares :: "int"
  MemSwappiness :: "int"
  DomainName :: "string"
  Attach :: "bool option"
  Labels :: "(string \<times> string) list"
  Annotations :: "(string \<times> string) list"
  Extends :: "unit option"
  PostStart :: "string list"
  PreStop :: "string list"
  Provider :: "unit option"
  Models :: "(string \<times> string) list"
  VolumeDriver :: "string"
  UseAPISocket :: "bool"
  Net :: "string"
  Deploy :: "DeployConfig option"

text \<open>
  The fields of compose-go's \<open>types.Project\<close> that the code reads. \<open>Services\<close> is a Go map
  from service name to service; it is kept here as an association list in the order in
  which the compose file declares the services, so that the order of declaration can be
  told apart from the order in which the map is read. The keys of a loaded project are
  distinct.
\<close>

record Project =
  ProjectName :: string
  Services :: "(string \<times> ServiceConfig) list"

text \<open>
  compose-go's method \<open>Project.ServiceNames()\<close>: it collects the keys of the \<open>Services\<close>
  map and sorts them with \<open>sort.Strings\<close>, ascending and byte-wise. The repository's test
  \<open>TestCheckProjectWarnings_ServiceOrder\<close> declares the services third, first, second, db
  and asserts that \<open>ServiceNames()\<close> is db, first, second, third.
\<close>

definition ServiceNames :: "Project \<Rightarrow> string list" where
  "ServiceNames project = sort (remdups (map fst (Services project)))"

text \<open>The zero value of \<open>ServiceConfig\<close>, which a Go map returns for a missing key.\<close>

definition zeroServiceConfig :: ServiceConfig where
  "zeroServiceConfig =
   \<lparr>Build = None,
     ContainerName = [],
     DependsOn = [],
     Links = [],
     Networks = [],
     NetworkMode = [],
     Restart = [],
     Secrets = [],
     Profiles = [],
     ExternalLinks = [],
     VolumesFrom = [],
     Develop = None,
     Hostname = [],
     DNS = [],
     DNSOpts = [],
     DNSSearch = [],
     ExtraHosts = [],
     SecurityOpt = [],
     Platform = [],
     WorkingDir = [],
     Tmpfs = [],
     ReadOnly = False,
     ShmSize = 0,
     CPUSet = [],
     MemSwapLimit = 0,
     Pid = [],
     Ipc = [],
     Uts = [],
     UserNSMode = [],
     CgroupParent = [],
     Cgroup = [],
     Isolation = [],
     Runtime = [],
     StopSignal = [],
     StopGracePeriod = None,
     MacAddress = [],
     Tty = False,
     StdinOpen = False,
     OomKillDisable = False,
     OomScoreAdj = 0,
     PidsLimit = 0,
     StorageOpt = [],
     DeviceCgroupRules = [],
     CredentialSpec = None,
     GroupAdd = [],
     BlkioConfig = None,
     CPUCount = 0,
     CPUPercent = 0,
     CPUPeriod = 0,
     CPUQuota = 0,
     CPURTPeriod = 0,
     CPURTRuntime = 0,
     CPUShares = 0,
     MemSwappiness = 0,
     DomainName = [],
     Attach = None,
     Labels = [],
     Annotations = [],
     Extends = None,
     PostStart = [],
     PreStop = [],
     Provider = None,
     Models = [],
     VolumeDriver = [],
     UseAPISocket = False,
     Net = [],
     Deploy = None\<rparr>"

definition lookupService :: "Project \<Rightarrow> string \<Rightarrow> ServiceConfig" where
  "lookupService project name =
     (case map_of (Services project) name of
        None \<Rightarrow> zeroServiceConfig
      | Some service \<Rightarrow> service)"

text \<open>\<open>if cond { warnings = append(warnings, Warning{...}) }\<close>\<close>

definition warn_if :: "bool \<Rightarrow> string \<Rightarrow> string \<Rightarrow> string \<Rightarrow> Warning list" where
  "warn_if cond name key msg =
     (if cond then [\<lparr>Service = name, Key = key, Message = msg\<rparr>] else [])"

fun networks_loop :: "string \<Rightarrow> (string \<times> unit option) list \<Rightarrow> bool" where
  "networks_loop defaultNetworkName [] = False"
| "networks_loop defaultNetworkName ((networkName, _) # rest) =
     (if networkName \<noteq> defaultNetworkName \<and> networkName \<noteq> ''default'' then True
      else networks_loop defaultNetworkName rest)"

definition hasUserDefinedNetworks :: "Project \<Rightarrow> ServiceConfig \<Rightarrow> bool" where
  "hasUserDefinedNetworks project service =
     (let defaultNetworkName = ProjectName project in
      if length (Networks service) = 0 then False
      else networks_loop defaultNetworkName (Networks service))"

definition checkDeployWarnings :: "string \<Rightarrow> DeployConfig \<Rightarrow> Warning list" where
  "checkDeployWarnings serviceName deploy =
     warn_if (length (DeployLabels deploy) > 0) serviceName
       ''deploy.labels''
       '''deploy.labels' is not supported.'' @
     warn_if (RollbackConfig deploy \<noteq> None) serviceName
       ''deploy.rollback_config''
       '''deploy.rollback_config' is not supported.'' @
     warn_if (RestartPolicy deploy \<noteq> None) serviceName
       ''deploy.restart_policy''
       '''deploy.restart_policy' is not supported. Uncloud manages container lifecycle.'' @
     warn_if (EndpointMode deploy \<noteq> []) serviceName
       ''deploy.endpoint_mode''
       '''deploy.endpoint_mode' is not supported.'' @
     warn_if (Constraints (Placement deploy) \<noteq> None \<or> length (Preferences (Placement deploy)) > 0)
       serviceName
       ''deploy.placement''
       '''deploy.placement' is not supported. Use 'x-machines' extension for machine placement.'' @
     (case UpdateConfig deploy of
        None \<Rightarrow> []
      | Some updateConfig \<Rightarrow>
          warn_if (Parallelism updateConfig \<noteq> None) serviceName
            ''deploy.update_config.parallelism''
            '''deploy.update_config.parallelism' is not supported.'' @
          warn_if (Delay updateConfig > 0) serviceName
            ''deploy.update_config.delay''
            '''deploy.update_config.delay' is not supported.'' @
          warn_if (FailureAction updateConfig \<noteq> []) serviceName
            ''deploy.update_config.failure_action''
            '''deploy.update_config.failure_action' is not supported.'' @
          warn_if (Monitor updateConfig > 0) serviceName
            ''deploy.update_config.monitor''
            '''deploy.update_config.monitor' is not supported.'' @
          warn_if (MaxFailureRatio updateConfig > 0) serviceName
            ''deploy.update_config.max_failure_ratio''
            '''deploy.update_config.max_failure_ratio' is not supported.'')"

text \<open>The checks of \<open>checkServiceWarnings\<close>, in the order of the source, before the sort.\<close>

definition serviceChecks :: "Project \<Rightarrow> string \<Rightarrow> ServiceConfig \<Rightarrow> Warning list" where
  "serviceChecks project name service =
     warn_if (Build service \<noteq> None) name
       ''build''
       '''build' is not supported. Pre-build images and specify 'image' instead.'' @
     warn_if (ContainerName service \<noteq> []) name
       ''container_name''
       '''container_name' is not supported. Uncloud generates container names automatically.'' @
     warn_if (length (DependsOn service) > 0 \<and> length (Links service) = 0) name
       ''depends_on''
       '''depends_on' is not supported. Services start independently.'' @
     warn_if (length (Networks service) > 0 \<and> hasUserDefinedNetworks project service) name
       ''networks''
       '''networks' is not supported. Uncloud uses a flat mesh network with built-in service discovery.'' @
     warn_if (NetworkMode service \<noteq> [] \<and> NetworkMode service \<noteq> ''default'') name
       ''network_mode''
       '''network_mode' is not supported. Uncloud uses a flat mesh network.'' @
     warn_if (Restart service \<noteq> []) name
       ''restart''
       '''restart' is not supported. Uncloud manages container lifecycle automatically.'' @
     warn_if (length (Secrets service) > 0) name
       ''secrets''
       '''secrets' is not supported. Use environment variables or configs instead.'' @
     warn_if (length (Profiles service) > 0) name
       ''profiles''
       '''profiles' is not supported. Specify services explicitly during deploy.'' @
     warn_if (length (Links service) > 0) name
       ''links''
       '''links' is deprecated and not supported. Use service names for discovery.'' @
     warn_if (length (ExternalLinks service) > 0) name
       ''external_links''
       '''external_links' is deprecated and not supported.'' @
     warn_if (length (VolumesFrom service) > 0) name
       ''volumes_from''
       '''volumes_from' is not supported. Define volumes explicitly.'' @
     warn_if (Develop service \<noteq> None) name
       ''develop''
       '''develop' is not supported. This is a development-only feature.'' @
     warn_if (Hostname service \<noteq> []) name
       ''hostname''
       '''hostname' is not supported. Use service name for DNS resolution.'' @
     warn_if (length (DNS service) > 0) name
       ''dns''
       '''dns' is not supported. Uncloud provides built-in DNS.'' @
     warn_if (length (DNSOpts service) > 0) name
       ''dns_opt''
       '''dns_opt' is not supported.'' @
     warn_if (length (DNSSearch service) > 0) name
       ''dns_search''
       '''dns_search' is not supported.'' @
     warn_if (length (ExtraHosts service) > 0) name
       ''extra_hosts''
       '''extra_hosts' is not supported.'' @
     warn_if (length (SecurityOpt service) > 0) name
       ''security_opt''
       '''security_opt' is not supported.'' @
     warn_if (Platform service \<noteq> []) name
       ''platform''
       '''platform' is not supported.'' @
     warn_if (WorkingDir service \<noteq> []) name
       ''working_dir''
       '''working_dir' is not supported.'' @
     warn_if (length (Tmpfs service) > 0) name
       ''tmpfs''
       '''tmpfs' at service level is not supported. Use volumes with tmpfs type instead.'' @
     warn_if (ReadOnly service) name
       ''read_only''
       '''read_only' is not supported.'' @
     warn_if (ShmSize service > 0) name
       ''shm_size''
       '''shm_size' is not supported.'' @
     warn_if (CPUSet service \<noteq> []) name
       ''cpuset''
       '''cpuset' is not supported.'' @
     warn_if (MemSwapLimit service > 0) name
       ''memswap_limit''
       '''memswap_limit' is not supported.'' @
     warn_if (Pid service \<noteq> []) name
       ''pid''
       '''pid' is not supported.'' @
     warn_if (Ipc service \<noteq> []) name
       ''ipc''
       '''ipc' is not supported.'' @
     warn_if (Uts service \<noteq> []) name
       ''uts''
       '''uts' is not supported.'' @
     warn_if (UserNSMode service \<noteq> []) name
       ''userns_mode''
       '''userns_mode' is not supported.'' @
     warn_if (CgroupParent service \<noteq> []) name
       ''cgroup_parent''
       '''cgroup_parent' is not supported.'' @
     warn_if (Cgroup service \<noteq> []) name
       ''cgroup''
       '''cgroup' is not supported.'' @
     warn_if (Isolation service \<noteq> []) name
       ''isolation''
       '''isolation' is not supported.'' @
     warn_if (Runtime service \<noteq> []) name
       ''runtime''
       '''runtime' is not supported.'' @
     warn_if (StopSignal service \<noteq> []) name
       ''stop_signal''
       '''stop_signal' is not supported.'' @
     warn_if (StopGracePeriod service \<noteq> None) name
       ''stop_grace_period''
       '''stop_grace_period' is not supported.'' @
     warn_if (MacAddress service \<noteq> []) name
       ''mac_address''
       '''mac_address' is not supported.'' @
     warn_if (Tty service) name
       ''tty''
       '''tty' is not supported.'' @
     warn_if (StdinOpen service) name
       ''stdin_open''
       '''stdin_open' is not supported.'' @
     warn_if (OomKillDisable service) name
       ''oom_kill_disable''
       '''oom_kill_disable' is not supported.'' @
     warn_if (OomScoreAdj service \<noteq> 0) name
       ''oom_score_adj''
       '''oom_score_adj' is not supported.'' @
     warn_if (PidsLimit service \<noteq> 0) name
       ''pids_limit''
       '''pids_limit' is not supported.'' @
     warn_if (length (StorageOpt service) > 0) name
       ''storage_opt''
       '''storage_opt' is not supported.'' @
     warn_if (length (DeviceCgroupRules service) > 0) name
       ''device_cgroup_rules''
       '''device_cgroup_rules' is not supported.'' @
     warn_if (CredentialSpec service \<noteq> None) name
       ''credential_spec''
       '''credential_spec' is not supported.'' @
     warn_if (length (GroupAdd service) > 0) name
       ''group_add''
       '''group_add' is not supported.'' @
     warn_if (BlkioConfig service \<noteq> None) name
       ''blkio_config''
       '''blkio_config' is not supported.'' @
     warn_if (CPUCount service > 0) name
       ''cpu_count''
       '''cpu_count' is not supported.'' @
     warn_if (CPUPercent service > 0) name
       ''cpu_percent''
       '''cpu_percent' is not supported.'' @
     warn_if (CPUPeriod service > 0) name
       ''cpu_period''
       '''cpu_period' is not supported.'' @
     warn_if (CPUQuota service > 0) name
       ''cpu_quota''
       '''cpu_quota' is not supported.'' @
     warn_if (CPURTPeriod service > 0) name
       ''cpu_rt_period''
       '''cpu_rt_period' is not supported.'' @
     warn_if (CPURTRuntime service > 0) name
       ''cpu_rt_runtime''
       '''cpu_rt_runtime' is not supported.'' @
     warn_if (CPUShares service \<noteq> 0) name
       ''cpu_shares''
       '''cpu_shares' is not supported.'' @
     warn_if (MemSwappiness service > 0) name
       ''mem_swappiness''
       '''mem_swappiness' is not supported.'' @
     warn_if (DomainName service \<noteq> []) name
       ''domainname''
       '''domainname' is not supported.'' @
     warn_if (case Attach service of None \<Rightarrow> False | Some attach \<Rightarrow> \<not> attach) name
       ''attach''
       '''attach' is not supported.'' @
     warn_if (length (Labels service) > 0) name
       ''labels''
       '''labels' at service level is not supported.'' @
     warn_if (length (Annotations service) > 0) name
       ''annotations''
       '''annotations' is not supported.'' @
     warn_if (Extends service \<noteq> None) name
       ''extends''
       '''extends' is not supported.'' @
     warn_if (length (PostStart service) > 0) name
       ''post_start''
       '''post_start' is not supported.'' @
     warn_if (length (PreStop service) > 0) name
       ''pre_stop''
       '''pre_stop' is not supported.'' @
     warn_if (Provider service \<noteq> None) name
       ''provider''
       '''provider' is not supported.'' @
     warn_if (length (Models service) > 0) name
       ''models''
       '''models' is not supported.'' @
     warn_if (VolumeDriver service \<noteq> []) name
       ''volume_driver''
       '''volume_driver' is not supported.'' @
     warn_if (UseAPISocket service) name
       ''use_api_socket''
       '''use_api_socket' is not supported.'' @
     warn_if (Net service \<noteq> []) name
       ''net''
       '''net' is deprecated and not supported. Use 'network_mode' instead.'' @
     (case Deploy service of None \<Rightarrow> [] | Some deploy \<Rightarrow> checkDeployWarnings name deploy)"

text \<open>
  \<open>slices.SortFunc\<close> with the comparison function of the source. The library sorts a
  short slice by insertion: each element moves left while it compares below its left
  neighbour.
\<close>

definition cmpKey :: "Warning \<Rightarrow> Warning \<Rightarrow> int" where
  "cmpKey a b = (if Key a < Key b then - 1 else if Key a > Key b then 1 else 0)"

fun insert_by :: "('a \<Rightarrow> 'a \<Rightarrow> int) \<Rightarrow> 'a \<Rightarrow> 'a list \<Rightarrow> 'a list" where
  "insert_by cmp x [] = [x]"
| "insert_by cmp x (y # ys) =
     (if cmp x y < 0 then x # y # ys else y # insert_by cmp x ys)"

definition SortFunc :: "('a \<Rightarrow> 'a \<Rightarrow> int) \<Rightarrow> 'a list \<Rightarrow> 'a list" where
  "SortFunc cmp xs = foldl (\<lambda>sorted x. insert_by cmp x sorted) [] xs"

definition checkServiceWarnings :: "Project \<Rightarrow> string \<Rightarrow> ServiceConfig \<Rightarrow> Warning list" where
  "checkServiceWarnings project name service =
     SortFunc cmpKey (serviceChecks project name service)"

fun CheckProjectWarnings_loop :: "Project \<Rightarrow> Warning list \<Rightarrow> string list \<Rightarrow> Warning list" where
  "CheckProjectWarnings_loop project warnings [] = warnings"
| "CheckProjectWarnings_loop project warnings (name # rest) =
     (let service = lookupService project name in
      CheckProjectWarnings_loop project
        (warnings @ checkServiceWarnings project name service) rest)"

definition CheckProjectWarnings :: "Project \<Rightarrow> Warning list" where
  "CheckProjectWarnings project = CheckProjectWarnings_loop project [] (ServiceNames project)"

section \<open>Specification-side notions\<close>

subsection \<open>Decimal numerals\<close>

text \<open>
  What it means for a string to be a decimal numeral, and its value, independently of
  the parsing loop: the accumulator of \<open>dec_val\<close> is a natural number and never wraps.
\<close>

definition is_digit :: "char \<Rightarrow> bool" where
  "is_digit c = (CHR ''0'' \<le> c \<and> c \<le> CHR ''9'')"

definition digit_val :: "char \<Rightarrow> nat" where
  "digit_val c = of_char c - 48"

fun dec_val :: "nat \<Rightarrow> string \<Rightarrow> nat" where
  "dec_val a [] = a"
| "dec_val a (c # s) = dec_val (a * 10 + digit_val c) s"

subsection \<open>Well-formed uid and gid strings\<close>

text \<open>
  A decimal numeral is a non-empty string of digits. A uid or gid string is acceptable
  when it is empty or a decimal numeral whose value fits the non-negative range of a
  signed 64-bit integer.
\<close>

definition is_decimal :: "string \<Rightarrow> bool" where
  "is_decimal s = (s \<noteq> [] \<and> list_all is_digit s)"

definition dec_value :: "string \<Rightarrow> nat" where
  "dec_value s = dec_val 0 s"

definition id_string_ok :: "string \<Rightarrow> bool" where
  "id_string_ok s = (s = [] \<or> (is_decimal s \<and> dec_value s < 2 ^ 63))"

subsection \<open>Well-formed spec and mount lists\<close>

text \<open>
  A spec list is well formed when every name is non-empty and no name repeats. A mount is
  well formed against a spec list when its secret name is non-empty and is the name of
  one of the specs, its uid and gid strings are acceptable, and its container path is
  empty or absolute.
\<close>

definition specs_ok :: "SecretSpec list \<Rightarrow> bool" where
  "specs_ok specs = (list_all (\<lambda>s. Name s \<noteq> []) specs \<and> distinct (map Name specs))"

definition mount_ok :: "SecretSpec list \<Rightarrow> SecretMount \<Rightarrow> bool" where
  "mount_ok specs m =
     (SecretName m \<noteq> [] \<and> SecretName m \<in> Name ` set specs \<and>
      id_string_ok (Uid m) \<and> id_string_ok (Gid m) \<and>
      (ContainerPath m = [] \<or> IsAbs (ContainerPath m)))"

subsection \<open>Secret resolution, one reference at a time\<close>

text \<open>
  The path that is read for a file-backed definition, the error a single reference
  gives rise to, and the spec and the mount a single reference yields.
\<close>

definition resolved_path :: "os_env \<Rightarrow> string \<Rightarrow> string \<Rightarrow> string" where
  "resolved_path env workingDir file =
     (if IsAbs file then file else Join env workingDir file)"

definition reference_error ::
  "os_env \<Rightarrow> (string \<rightharpoonup> SecretConfig) \<Rightarrow> string \<Rightarrow> ServiceSecretConfig \<Rightarrow> compose_error option" where
  "reference_error env secrets workingDir r =
     (case secrets (Source r) of
        None \<Rightarrow> Some (SecretNotFound (Source r))
      | Some d \<Rightarrow>
          if External d then Some (ExternalSecretsNotSupported (Source r))
          else if File d = [] then None
          else (case ReadFile env (resolved_path env workingDir (File d)) of
                  Inl e \<Rightarrow> Some (ReadSecretFromFile (File d) e)
                | Inr _ \<Rightarrow> None))"

definition reference_content ::
  "os_env \<Rightarrow> (string \<rightharpoonup> SecretConfig) \<Rightarrow> string \<Rightarrow> ServiceSecretConfig \<Rightarrow> string" where
  "reference_content env secrets workingDir r =
     (case secrets (Source r) of
        None \<Rightarrow> []
      | Some d \<Rightarrow>
          if File d = [] then ConfigContent d
          else (case ReadFile env (resolved_path env workingDir (File d)) of
                  Inl _ \<Rightarrow> []
                | Inr bytes \<Rightarrow> bytes))"

definition reference_spec ::
  "os_env \<Rightarrow> (string \<rightharpoonup> SecretConfig) \<Rightarrow> string \<Rightarrow> ServiceSecretConfig \<Rightarrow> SecretSpec" where
  "reference_spec env secrets workingDir r =
     \<lparr>Name = Source r, Content = reference_content env secrets workingDir r\<rparr>"

definition reference_mount :: "ServiceSecretConfig \<Rightarrow> SecretMount" where
  "reference_mount r =
     \<lparr>SecretName = Source r,
      ContainerPath = (if Target r = [] then ''/run/secrets/'' @ Source r else Target r),
      Uid = UID r, Gid = GID r, Mode = map_option ucast (RefMode r)\<rparr>"

subsection \<open>The catalogue of warning keys\<close>

text \<open>The keys of the service checks and of the deploy checks, in the order of the source.\<close>

definition service_keys :: "string list" where
  "service_keys =
    [''build'', ''container_name'', ''depends_on'', ''networks'', ''network_mode'',
     ''restart'', ''secrets'', ''profiles'', ''links'', ''external_links'',
     ''volumes_from'', ''develop'', ''hostname'', ''dns'', ''dns_opt'', ''dns_search'',
     ''extra_hosts'', ''security_opt'', ''platform'', ''working_dir'', ''tmpfs'',
     ''read_only'', ''shm_size'', ''cpuset'', ''memswap_limit'', ''pid'', ''ipc'', ''uts'',
     ''userns_mode'', ''cgroup_parent'', ''cgroup'', ''isolation'', ''runtime'',
     ''stop_signal'', ''stop_grace_period'', ''mac_address'', ''tty'', ''stdin_open'',
     ''oom_kill_disable'', ''oom_score_adj'', ''pids_limit'', ''storage_opt'',
     ''device_cgroup_rules'', ''credential_spec'', ''group_add'', ''blkio_config'',
     ''cpu_count'', ''cpu_percent'', ''cpu_period'', ''cpu_quota'', ''cpu_rt_period'',
     ''cpu_rt_runtime'', ''cpu_shares'', ''mem_swappiness'', ''domainname'', ''attach'',
     ''labels'', ''annotations'', ''extends'', ''post_start'', ''pre_stop'', ''provider'',
     ''models'', ''volume_driver'', ''use_api_socket'', ''net'']"

definition deploy_keys :: "string list" where
  "deploy_keys =
    [''deploy.labels'', ''deploy.rollback_config'', ''deploy.restart_policy'',
     ''deploy.endpoint_mode'', ''deploy.placement'', ''deploy.update_config.parallelism'',
     ''deploy.update_config.delay'', ''deploy.update_config.failure_action'',
     ''deploy.update_config.monitor'', ''deploy.update_config.max_failure_ratio'']"

subsection \<open>The scan in the order of declaration\<close>

text \<open>
  What the warning list would be if the services were visited in the order in which the
  compose file declares them.
\<close>

definition declared_order_warnings :: "Project \<Rightarrow> Warning list" where
  "declared_order_warnings project =
     concat (map (\<lambda>(name, service). checkServiceWarnings project name service)
               (Services project))"

section \<open>Example inputs\<close>

definition ex_env :: os_env where
  "ex_env =
     \<lparr>ReadFile = (\<lambda>p. if p = ''/app/testdata/secret1.txt'' then Inr ''test secret content''
                      else Inl ''no such file or directory''),
      Join = (\<lambda>dir p. dir @ ''/'' @ p)\<rparr>"

definition ex_secrets :: "string \<rightharpoonup> SecretConfig" where
  "ex_secrets =
     [''app-secret'' \<mapsto> \<lparr>File = ''testdata/secret1.txt'', ConfigContent = ''ignored'', External = False\<rparr>,
      ''token'' \<mapsto> \<lparr>File = [], ConfigContent = ''s3cr3t'', External = False\<rparr>,
      ''vault'' \<mapsto> \<lparr>File = [], ConfigContent = [], External = True\<rparr>,
      ''lost'' \<mapsto> \<lparr>File = ''/nowhere'', ConfigContent = [], External = False\<rparr>]"

definition ex_ref_file :: ServiceSecretConfig where
  "ex_ref_file = \<lparr>Source = ''app-secret'', Target = [], UID = ''1000'', GID = ''1000'', RefMode = None\<rparr>"

definition ex_ref_inline :: ServiceSecretConfig where
  "ex_ref_inline = \<lparr>Source = ''token'', Target = ''/etc/token'', UID = [], GID = [], RefMode = Some 256\<rparr>"

definition ex_ref_external :: ServiceSecretConfig where
  "ex_ref_external = \<lparr>Source = ''vault'', Target = [], UID = [], GID = [], RefMode = None\<rparr>"

definition ex_specs :: "SecretSpec list" where
  "ex_specs = [\<lparr>Name = ''app-secret'', Content = ''test secret content''\<rparr>,
               \<lparr>Name = ''token'', Content = ''s3cr3t''\<rparr>]"

definition ex_mounts :: "SecretMount list" where
  "ex_mounts =
     [\<lparr>SecretName = ''app-secret'', ContainerPath = ''/run/secrets/app-secret'',
       Uid = ''1000'', Gid = ''1000'', Mode = None\<rparr>,
      \<lparr>SecretName = ''token'', ContainerPath = ''/etc/token'', Uid = [], Gid = [], Mode = Some 256\<rparr>]"

definition ex_ref_lost :: ServiceSecretConfig where
  "ex_ref_lost = \<lparr>Source = ''lost'', Target = [], UID = [], GID = [], RefMode = None\<rparr>"

definition ex_ref_ghost :: ServiceSecretConfig where
  "ex_ref_ghost = \<lparr>Source = ''ghost'', Target = [], UID = [], GID = [], RefMode = None\<rparr>"

definition ex_mount_big :: SecretMount where
  "ex_mount_big =
     \<lparr>SecretName = ''app-secret'', ContainerPath = ''/run/secrets/app-secret'',
      Uid = ''9223372036854775808'', Gid = [], Mode = None\<rparr>"

definition ex_mount_named :: SecretMount where
  "ex_mount_named =
     \<lparr>SecretName = ''app-secret'', ContainerPath = [], Uid = ''root'', Gid = [], Mode = None\<rparr>"

definition ex_mount_stray :: SecretMount where
  "ex_mount_stray =
     \<lparr>SecretName = ''ghost'', ContainerPath = ''/run/secrets/ghost'', Uid = [], Gid = [],
      Mode = None\<rparr>"

definition ex_web :: ServiceConfig where
  "ex_web = zeroServiceConfig
     \<lparr>Networks := [(''shop'', None), (''backend'', None)],
      DependsOn := [(''db'', ''service_started'')],
      Links := [''db''],
      Restart := ''always''\<rparr>"

definition ex_db :: ServiceConfig where
  "ex_db = zeroServiceConfig
     \<lparr>Networks := [(''default'', None), (''shop'', None)],
      DependsOn := [(''cache'', ''service_healthy'')],
      Build := Some ()\<rparr>"

definition ex_project :: Project where
  "ex_project =
     \<lparr>ProjectName = ''shop'',
      Services = [(''web'', ex_web), (''db'', ex_db)]\<rparr>"

text \<open>The project of the test \<open>TestCheckProjectWarnings_ServiceOrder\<close>, in its file order.\<close>

definition ex_third :: ServiceConfig where
  "ex_third = zeroServiceConfig\<lparr>DependsOn := [(''db'', ''service_started'')]\<rparr>"

definition ex_first :: ServiceConfig where
  "ex_first = zeroServiceConfig\<lparr>Networks := [(''frontend'', None)]\<rparr>"

definition ex_second :: ServiceConfig where
  "ex_second = zeroServiceConfig\<lparr>Restart := ''always''\<rparr>"

definition ex_order_project :: Project where
  "ex_order_project =
     \<lparr>ProjectName = ''test'',
      Services = [(''third'', ex_third), (''first'', ex_first), (''second'', ex_second),
                  (''db'', zeroServiceConfig)]\<rparr>"

definition ex_deploy_empty_constraints :: DeployConfig where
  "ex_deploy_empty_constraints =
     \<lparr>Replicas = Some 2, DeployLabels = [], UpdateConfig = None, RollbackConfig = None,
      RestartPolicy = None, EndpointMode = [],
      Placement = \<lparr>Constraints = Some [], Preferences = []\<rparr>\<rparr>"

section \<open>ParseUint accepts exactly the decimal numerals below \<open>2 ^ 64\<close>\<close>

lemma is_digit_nat: "is_digit c \<longleftrightarrow> 48 \<le> (of_char c :: nat) \<and> (of_char c :: nat) \<le> 57"
  by (simp add: is_digit_def less_eq_char_def)

lemma unat_of_char: "unat (of_char c :: 8 word) = (of_char c :: nat)"
proof -
  have "(of_char c :: 8 word) = of_nat (of_char c)"
    by (simp add: of_nat_of_char)
  then have "unat (of_char c :: 8 word) = (of_char c :: nat) mod 2 ^ 8"
    by (simp add: unat_of_nat)
  then show ?thesis by simp
qed

lemma letter_digit_ge10:
  fixes l :: "8 word"
  assumes "97 \<le> l" "l \<le> 122"
  shows "10 \<le> l - 97 + 10"
proof -
  define d where "d = l - 97"
  have a: "97 \<le> unat l" "unat l \<le> 122"
    using assms by (simp_all add: word_le_nat_alt)
  have "unat d = unat l - 97"
    unfolding d_def using assms(1) by (simp add: unat_sub)
  then have "unat d \<le> 25" using a by simp
  then have "unat (d + 10) = unat d + 10"
    by (simp add: unat_plus_if')
  then have "10 \<le> d + 10" by (simp add: word_le_nat_alt)
  then show ?thesis unfolding d_def .
qed

lemma digit_of_digit:
  assumes "is_digit c"
  shows "\<exists>d. digit_of c = Some d \<and> \<not> 10 \<le> d \<and> unat d = digit_val c"
proof -
  let ?w = "of_char c :: 8 word"
  have n: "48 \<le> (of_char c :: nat)" "(of_char c :: nat) \<le> 57"
    using assms by (simp_all add: is_digit_nat)
  then have w: "48 \<le> ?w" "?w \<le> 57"
    by (simp_all add: word_le_nat_alt unat_of_char)
  have u: "unat (?w - 48) = digit_val c"
    using w(1) by (simp add: unat_sub unat_of_char digit_val_def)
  then have "\<not> 10 \<le> ?w - 48"
    using n by (simp add: word_le_nat_alt digit_val_def)
  then show ?thesis using w u by (simp add: digit_of_def)
qed

lemma digit_of_nondigit:
  assumes "\<not> is_digit c" "digit_of c = Some d"
  shows "10 \<le> d"
proof -
  let ?w = "of_char c :: 8 word"
  have "\<not> (48 \<le> ?w \<and> ?w \<le> 57)"
    using assms(1) by (simp add: word_le_nat_alt unat_of_char is_digit_nat)
  then show ?thesis using assms(2) letter_digit_ge10 [of "lower ?w"]
    by (auto simp: digit_of_def Let_def split: if_splits)
qed

lemma dec_val_ge: "a \<le> dec_val a s"
proof (induction s arbitrary: a)
  case Nil
  show ?case by simp
next
  case (Cons c s)
  have "a \<le> a * 10 + digit_val c" by simp
  also have "\<dots> \<le> dec_val (a * 10 + digit_val c) s" by (rule Cons.IH)
  finally show ?case by simp
qed

lemma step_no_overflow:
  fixes n :: "64 word" and d :: "8 word"
  assumes "\<not> cutoff \<le> n" "\<not> 10 \<le> d"
  shows "unat (n * 10) = unat n * 10"
    and "unat (n * 10 + ucast d) =
           (if unat n * 10 + unat d < 2 ^ 64 then unat n * 10 + unat d
            else unat n * 10 + unat d - 2 ^ 64)"
proof -
  have "unat n < 1844674407370955162"
    using assms(1) by (simp add: cutoff_def word_le_nat_alt)
  then have "unat n * unat (10 :: 64 word) < 2 ^ LENGTH(64)" by simp
  then have "unat (n * 10) = unat n * unat (10 :: 64 word)"
    by (simp only: unat_mult_lem)
  then show m: "unat (n * 10) = unat n * 10" by simp
  have "unat d < 2 ^ 64"
    using unsigned_less [of d, where 'a = nat] by simp
  then have "unat (ucast d :: 64 word) = unat d"
    by (simp add: unsigned_ucast_eq take_bit_nat_eq_self)
  then show "unat (n * 10 + ucast d) =
           (if unat n * 10 + unat d < 2 ^ 64 then unat n * 10 + unat d
            else unat n * 10 + unat d - 2 ^ 64)"
    using m by (simp add: unat_plus_if')
qed

lemma maxVal_top: "\<not> (n :: 64 word) > maxVal"
proof -
  have "maxVal = - 1" by (simp add: maxVal_def)
  then show ?thesis using word_n1_ge [of n] by (simp only: not_less)
qed

lemma ParseUint_loop_Inr:
  "ParseUint_loop n s = Inr v \<longleftrightarrow>
     list_all is_digit s \<and> dec_val (unat n) s < 2 ^ 64 \<and> unat v = dec_val (unat n) s"
proof (induction s arbitrary: n)
  case Nil
  have "unat v < 2 ^ 64" using unsigned_less [of v, where 'a = nat] by simp
  then show ?case by (auto simp: word_unat_eq_iff)
next
  case (Cons c s)
  show ?case
  proof (cases "is_digit c")
    case False
    then show ?thesis
      by (auto split: option.splits dest: digit_of_nondigit)
  next
    case True
    then obtain d where d: "digit_of c = Some d" "\<not> 10 \<le> d" "unat d = digit_val c"
      using digit_of_digit by blast
    have d10: "unat d < 10" using d(2) by (simp add: word_le_nat_alt)
    show ?thesis
    proof (cases "cutoff \<le> n")
      case True
      then have "1844674407370955162 \<le> unat n"
        by (simp add: cutoff_def word_le_nat_alt)
      then have "2 ^ 64 \<le> unat n * 10 + digit_val c" by simp
      also have "\<dots> \<le> dec_val (unat n * 10 + digit_val c) s" by (rule dec_val_ge)
      finally have "\<not> dec_val (unat n) (c # s) < 2 ^ 64" by simp
      then show ?thesis using True d by simp
    next
      case nc: False
      note st = step_no_overflow [OF nc d(2)]
      show ?thesis
      proof (cases "unat n * 10 + unat d < 2 ^ 64")
        case True
        then have u: "unat (n * 10 + ucast d) = unat n * 10 + digit_val c"
          using st(2) d(3) by simp
        then have "\<not> n * 10 + ucast d < n * 10"
          using st(1) by (simp add: word_less_nat_alt)
        then have "ParseUint_loop n (c # s) = ParseUint_loop (n * 10 + ucast d) s"
          using nc d maxVal_top by (simp add: Let_def)
        then show ?thesis using Cons.IH [of "n * 10 + ucast d"] u \<open>is_digit c\<close> by simp
      next
        case False
        then have "unat (n * 10 + ucast d) = unat n * 10 + unat d - 2 ^ 64"
          using st(2) by simp
        then have "n * 10 + ucast d < n * 10"
          using st(1) d10 False by (simp add: word_less_nat_alt)
        then have l: "ParseUint_loop n (c # s) = Inl ErrRange"
          using nc d by (simp add: Let_def)
        have "2 ^ 64 \<le> unat n * 10 + digit_val c" using False d(3) by simp
        also have "\<dots> \<le> dec_val (unat n * 10 + digit_val c) s" by (rule dec_val_ge)
        finally have "\<not> dec_val (unat n) (c # s) < 2 ^ 64" by simp
        then show ?thesis using l by simp
      qed
    qed
  qed
qed

section \<open>The secret resolver\<close>

lemma secretSpecs_loop_Cons:
  "secretSpecs_loop env secrets wd ss ms (r # rest) =
     (case reference_error env secrets wd r of
        Some e \<Rightarrow> ([], [], Some e)
      | None \<Rightarrow> secretSpecs_loop env secrets wd
                  (ss @ [reference_spec env secrets wd r]) (ms @ [reference_mount r]) rest)"
  by (simp add: reference_error_def reference_spec_def reference_content_def reference_mount_def
        resolved_path_def Let_def split: option.splits sum.splits)

lemma secretSpecs_loop_error:
  "secretSpecs_loop env secrets wd ss ms refs = (specs, mounts, Some e) \<Longrightarrow>
     specs = [] \<and> mounts = [] \<and>
     (\<exists>pre r post. refs = pre @ r # post \<and> reference_error env secrets wd r = Some e \<and>
        (\<forall>q \<in> set pre. reference_error env secrets wd q = None))"
proof (induction refs arbitrary: ss ms)
  case Nil
  then show ?case by simp
next
  case (Cons r rest)
  show ?case
  proof (cases "reference_error env secrets wd r")
    case None
    with Cons.prems have
      "secretSpecs_loop env secrets wd (ss @ [reference_spec env secrets wd r])
         (ms @ [reference_mount r]) rest = (specs, mounts, Some e)"
      by (simp only: secretSpecs_loop_Cons option.case)
    from Cons.IH [OF this] obtain pre q post where
      "specs = []" "mounts = []" "rest = pre @ q # post"
      "reference_error env secrets wd q = Some e"
      "\<forall>p \<in> set pre. reference_error env secrets wd p = None"
      by blast
    then have "r # rest = (r # pre) @ q # post \<and> reference_error env secrets wd q = Some e \<and>
        (\<forall>p \<in> set (r # pre). reference_error env secrets wd p = None)"
      using None by simp
    then show ?thesis using \<open>specs = []\<close> \<open>mounts = []\<close> by blast
  next
    case (Some e')
    with Cons.prems have "specs = []" "mounts = []" "e' = e"
      by (simp_all only: secretSpecs_loop_Cons option.case prod.inject option.inject)
    then have "r # rest = [] @ r # rest \<and> reference_error env secrets wd r = Some e \<and>
        (\<forall>p \<in> set []. reference_error env secrets wd p = None)"
      using Some by simp
    then show ?thesis using \<open>specs = []\<close> \<open>mounts = []\<close> by blast
  qed
qed

lemma secretSpecs_loop_ok:
  "secretSpecs_loop env secrets wd ss ms refs = (specs, mounts, None) \<Longrightarrow>
     specs = ss @ map (reference_spec env secrets wd) refs \<and>
     mounts = ms @ map reference_mount refs \<and>
     (\<forall>r \<in> set refs. reference_error env secrets wd r = None)"
proof (induction refs arbitrary: ss ms)
  case Nil
  then show ?case by simp
next
  case (Cons r rest)
  show ?case
  proof (cases "reference_error env secrets wd r")
    case None
    with Cons.prems have
      "secretSpecs_loop env secrets wd (ss @ [reference_spec env secrets wd r])
         (ms @ [reference_mount r]) rest = (specs, mounts, None)"
      by (simp only: secretSpecs_loop_Cons option.case)
    from Cons.IH [OF this] show ?thesis using None by simp
  next
    case (Some e')
    with Cons.prems show ?thesis
      by (simp only: secretSpecs_loop_Cons option.case prod.inject) simp
  qed
qed

lemma secretSpecs_loop_total:
  "(\<forall>r \<in> set refs. reference_error env secrets wd r = None) \<Longrightarrow>
   secretSpecs_loop env secrets wd ss ms refs =
     (ss @ map (reference_spec env secrets wd) refs, ms @ map reference_mount refs, None)"
proof (induction refs arbitrary: ss ms)
  case Nil
  show ?case by simp
next
  case (Cons r rest)
  then have "reference_error env secrets wd r = None"
    and "\<forall>q \<in> set rest. reference_error env secrets wd q = None" by simp_all
  then show ?case using Cons.IH by (simp only: secretSpecs_loop_Cons option.case) simp
qed

lemma ex_resolution:
  "secretSpecsFromCompose ex_env ex_secrets [ex_ref_file, ex_ref_inline] ''/app'' =
     (ex_specs, ex_mounts, None)"
  by (simp add: secretSpecsFromCompose_def ex_env_def ex_secrets_def ex_ref_file_def
        ex_ref_inline_def ex_specs_def ex_mounts_def IsAbs_def)

lemma ex_resolution_external:
  "secretSpecsFromCompose ex_env ex_secrets [ex_ref_file, ex_ref_external, ex_ref_inline] ''/app'' =
     ([], [], Some (ExternalSecretsNotSupported ''vault''))"
  by (simp add: secretSpecsFromCompose_def ex_env_def ex_secrets_def ex_ref_file_def
        ex_ref_inline_def ex_ref_external_def IsAbs_def)

lemma secretSpecsFromCompose_ok:
  assumes "secretSpecsFromCompose env secrets refs wd = (specs, mounts, None)"
  shows "specs = map (reference_spec env secrets wd) refs"
    and "mounts = map reference_mount refs"
    and "\<forall>r \<in> set refs. reference_error env secrets wd r = None"
  using secretSpecs_loop_ok [of env secrets wd "[]" "[]" refs specs mounts] assms
  by (simp_all add: secretSpecsFromCompose_def)

section \<open>Validation of secret mounts and specs\<close>

lemma unat_eq_iff_of_nat:
  fixes v :: "64 word"
  assumes "n < 2 ^ 64"
  shows "unat v = n \<longleftrightarrow> v = of_nat n"
proof
  assume "unat v = n"
  then show "v = of_nat n" by (metis of_nat_unat ucast_id)
next
  assume "v = of_nat n"
  then have "unat v = n mod 2 ^ 64" by (simp add: unat_of_nat)
  then show "unat v = n" using assms by simp
qed

lemma ParseUint_Inr:
  "ParseUint s = Inr v \<longleftrightarrow> is_decimal s \<and> dec_value s < 2 ^ 64 \<and> v = of_nat (dec_value s)"
  using ParseUint_loop_Inr [of 0 s v] unat_eq_iff_of_nat [of "dec_value s" v]
  by (auto simp: ParseUint_def is_decimal_def dec_value_def)

lemma sint_negative_iff:
  fixes v :: "64 word"
  shows "sint v < 0 \<longleftrightarrow> 2 ^ 63 \<le> unat v"
proof -
  define k where "k = uint v"
  define P :: int where "P = 2 ^ 63"
  have P: "0 < P" by (simp add: P_def)
  have "k < 2 ^ 64" unfolding k_def using uint_lt2p [of v] by simp
  then have b: "0 \<le> k" "k < 2 * P" by (simp_all add: k_def P_def)
  have "sint v < 0 \<longleftrightarrow> bit k 63"
    by (simp add: sint_uint k_def)
  also have "\<dots> \<longleftrightarrow> odd (k div P)"
    by (simp add: bit_iff_odd P_def)
  also have "\<dots> \<longleftrightarrow> P \<le> k"
  proof (cases "k < P")
    case True
    then have "k div P = 0" using b(1) by simp
    then show ?thesis using True by simp
  next
    case False
    then have "k = P * 1 + (k - P)" "0 \<le> k - P" "k - P < P" using b by simp_all
    then have "k div P = 1" by (rule int_div_pos_eq)
    then show ?thesis using False by simp
  qed
  also have "\<dots> \<longleftrightarrow> 2 ^ 63 \<le> unat v"
  proof -
    have g: "P \<le> int n \<longleftrightarrow> 2 ^ 63 \<le> n" for n :: nat
      by (simp add: P_def)
    have "k = int (unat v)" by (simp add: k_def)
    then show ?thesis by (simp only: g)
  qed
  finally show ?thesis .
qed

lemma GetNumericUid_Inr:
  "GetNumericUid m = Inr r \<longleftrightarrow>
     (Uid m = [] \<and> r = None) \<or>
     (is_decimal (Uid m) \<and> dec_value (Uid m) < 2 ^ 63 \<and> r = Some (of_nat (dec_value (Uid m))))"
proof (cases "Uid m = []")
  case True
  then show ?thesis by (auto simp: GetNumericUid_def is_decimal_def)
next
  case False
  show ?thesis
  proof (cases "ParseUint (Uid m)")
    case (Inl e)
    then have "\<not> (is_decimal (Uid m) \<and> dec_value (Uid m) < 2 ^ 64)"
      using ParseUint_Inr [of "Uid m" "of_nat (dec_value (Uid m))"] by auto
    then have "\<not> (is_decimal (Uid m) \<and> dec_value (Uid m) < 2 ^ 63)"
      by auto
    then show ?thesis using False Inl by (auto simp: GetNumericUid_def)
  next
    case (Inr v)
    then have v: "is_decimal (Uid m)" "dec_value (Uid m) < 2 ^ 64" "v = of_nat (dec_value (Uid m))"
      by (simp_all add: ParseUint_Inr)
    have "unat v = dec_value (Uid m)"
      using v(2,3) unat_eq_iff_of_nat by blast
    then have "sint v < 0 \<longleftrightarrow> 2 ^ 63 \<le> dec_value (Uid m)"
      by (simp add: sint_negative_iff)
    then show ?thesis using False Inr v(1,3)
      by (auto simp: GetNumericUid_def)
  qed
qed

lemma GetNumericGid_Inr:
  "GetNumericGid m = Inr r \<longleftrightarrow>
     (Gid m = [] \<and> r = None) \<or>
     (is_decimal (Gid m) \<and> dec_value (Gid m) < 2 ^ 63 \<and> r = Some (of_nat (dec_value (Gid m))))"
proof (cases "Gid m = []")
  case True
  then show ?thesis by (auto simp: GetNumericGid_def is_decimal_def)
next
  case False
  show ?thesis
  proof (cases "ParseUint (Gid m)")
    case (Inl e)
    then have "\<not> (is_decimal (Gid m) \<and> dec_value (Gid m) < 2 ^ 64)"
      using ParseUint_Inr [of "Gid m" "of_nat (dec_value (Gid m))"] by auto
    then have "\<not> (is_decimal (Gid m) \<and> dec_value (Gid m) < 2 ^ 63)"
      by auto
    then show ?thesis using False Inl by (auto simp: GetNumericGid_def)
  next
    case (Inr v)
    then have v: "is_decimal (Gid m)" "dec_value (Gid m) < 2 ^ 64" "v = of_nat (dec_value (Gid m))"
      by (simp_all add: ParseUint_Inr)
    have "unat v = dec_value (Gid m)"
      using v(2,3) unat_eq_iff_of_nat by blast
    then have "sint v < 0 \<longleftrightarrow> 2 ^ 63 \<le> dec_value (Gid m)"
      by (simp add: sint_negative_iff)
    then show ?thesis using False Inr v(1,3)
      by (auto simp: GetNumericGid_def)
  qed
qed

lemma GetNumericUid_ok_iff: "(\<exists>r. GetNumericUid m = Inr r) \<longleftrightarrow> id_string_ok (Uid m)"
  by (auto simp: GetNumericUid_Inr id_string_ok_def)

lemma GetNumericGid_ok_iff: "(\<exists>r. GetNumericGid m = Inr r) \<longleftrightarrow> id_string_ok (Gid m)"
  by (auto simp: GetNumericGid_Inr id_string_ok_def)

lemma SecretMount_Validate_None:
  "SecretMount_Validate m = None \<longleftrightarrow>
     SecretName m \<noteq> [] \<and> id_string_ok (Uid m) \<and> id_string_ok (Gid m) \<and>
     (ContainerPath m = [] \<or> IsAbs (ContainerPath m))"
  using GetNumericUid_ok_iff [of m] GetNumericGid_ok_iff [of m]
  by (cases "GetNumericUid m"; cases "GetNumericGid m")
     (auto simp: SecretMount_Validate_def)

lemma validate_secrets_loop_append:
  "validate_secrets_loop M (pre @ rest) =
     (case validate_secrets_loop M pre of
        Inl e \<Rightarrow> Inl e
      | Inr M' \<Rightarrow> validate_secrets_loop M' rest)"
  by (induction pre arbitrary: M) (simp_all split: option.splits)

lemma validate_secrets_loop_Inr:
  "(\<exists>M'. validate_secrets_loop M specs = Inr M') \<longleftrightarrow>
     (\<forall>s \<in> set specs. Name s \<noteq> [] \<and> M (Name s) = None) \<and> distinct (map Name specs)"
proof (induction specs arbitrary: M)
  case Nil
  show ?case by simp
next
  case (Cons s specs)
  show ?case
  proof (cases "Name s \<noteq> [] \<and> M (Name s) = None")
    case False
    then show ?thesis by (auto simp: SecretSpec_Validate_def)
  next
    case True
    let ?M = "M(Name s \<mapsto> ())"
    have step: "validate_secrets_loop M (s # specs) = validate_secrets_loop ?M specs"
      using True by (simp add: SecretSpec_Validate_def)
    have upd: "?M n = None \<longleftrightarrow> n \<noteq> Name s \<and> M n = None" for n
      by simp
    have img: "Name s \<notin> Name ` set specs \<longleftrightarrow> (\<forall>t \<in> set specs. Name t \<noteq> Name s)"
      by (metis (no_types) image_iff)
    have "(\<exists>M'. validate_secrets_loop M (s # specs) = Inr M') \<longleftrightarrow>
            (\<exists>M'. validate_secrets_loop ?M specs = Inr M')"
      by (simp only: step)
    also have "\<dots> \<longleftrightarrow>
        (\<forall>t \<in> set specs. Name t \<noteq> [] \<and> ?M (Name t) = None) \<and> distinct (map Name specs)"
      by (rule Cons.IH)
    also have "\<dots> \<longleftrightarrow>
        (\<forall>t \<in> set specs. Name t \<noteq> [] \<and> M (Name t) = None) \<and>
        Name s \<notin> Name ` set specs \<and> distinct (map Name specs)"
      unfolding upd img by blast
    also have "\<dots> \<longleftrightarrow>
        (\<forall>t \<in> set (s # specs). Name t \<noteq> [] \<and> M (Name t) = None) \<and>
        distinct (map Name (s # specs))"
      using True by auto
    finally show ?thesis .
  qed
qed

lemma validate_secrets_loop_dom:
  "validate_secrets_loop M specs = Inr M' \<Longrightarrow>
     M' n \<noteq> None \<longleftrightarrow> M n \<noteq> None \<or> n \<in> Name ` set specs"
proof (induction specs arbitrary: M)
  case Nil
  then show ?case by simp
next
  case (Cons s specs)
  from Cons.prems have "validate_secrets_loop (M(Name s \<mapsto> ())) specs = Inr M'"
    by (simp add: SecretSpec_Validate_def split: if_splits)
  from Cons.IH [OF this] show ?case by auto
qed

lemma validate_mounts_loop_append:
  "validate_mounts_loop M (pre @ rest) =
     (case validate_mounts_loop M pre of
        Some e \<Rightarrow> Some e
      | None \<Rightarrow> validate_mounts_loop M rest)"
  by (induction pre) (simp_all split: option.splits)

lemma validate_mounts_loop_None:
  "validate_mounts_loop M mounts = None \<longleftrightarrow>
     (\<forall>m \<in> set mounts. SecretMount_Validate m = None \<and> M (SecretName m) \<noteq> None)"
  by (induction mounts) (auto split: option.splits)

lemma specs_ok_loop:
  assumes "specs_ok specs"
  shows "\<exists>M'. validate_secrets_loop Map.empty specs = Inr M' \<and>
           (\<forall>n. M' n \<noteq> None \<longleftrightarrow> n \<in> Name ` set specs)"
proof -
  have "\<exists>M'. validate_secrets_loop Map.empty specs = Inr M'"
    using assms by (simp add: validate_secrets_loop_Inr specs_ok_def list_all_iff)
  then obtain M' where M: "validate_secrets_loop Map.empty specs = Inr M'" by blast
  have "M' n \<noteq> None \<longleftrightarrow> n \<in> Name ` set specs" for n
    using validate_secrets_loop_dom [OF M, of n] by simp
  with M show ?thesis by blast
qed

lemma Validate_None_iff:
  "ValidateSecretsAndMounts specs mounts = None \<longleftrightarrow>
     specs_ok specs \<and> list_all (mount_ok specs) mounts"
proof (cases "specs_ok specs")
  case True
  then obtain M' where M: "validate_secrets_loop Map.empty specs = Inr M'"
    and d: "\<And>n. M' n \<noteq> None \<longleftrightarrow> n \<in> Name ` set specs"
    using specs_ok_loop [OF True] by blast
  show ?thesis using True M d
    by (auto simp: ValidateSecretsAndMounts_def validate_mounts_loop_None
          SecretMount_Validate_None mount_ok_def list_all_iff)
next
  case False
  then have "\<not> (\<exists>M'. validate_secrets_loop Map.empty specs = Inr M')"
    by (simp add: validate_secrets_loop_Inr specs_ok_def list_all_iff)
  then obtain e where "validate_secrets_loop Map.empty specs = Inl e"
    by (cases "validate_secrets_loop Map.empty specs") auto
  then show ?thesis using False by (simp add: ValidateSecretsAndMounts_def)
qed

lemma Validate_spec_error:
  assumes "specs = pre @ s # post" "specs_ok pre"
  shows "Name s = [] \<Longrightarrow>
           ValidateSecretsAndMounts specs mounts = Some (InvalidSecret SecretNameRequired)"
    and "Name s \<noteq> [] \<Longrightarrow> Name s \<in> Name ` set pre \<Longrightarrow>
           ValidateSecretsAndMounts specs mounts = Some (DuplicateSecretName (Name s))"
proof -
  obtain M' where M: "validate_secrets_loop Map.empty pre = Inr M'"
    and d: "\<And>n. M' n \<noteq> None \<longleftrightarrow> n \<in> Name ` set pre"
    using specs_ok_loop [OF assms(2)] by blast
  have l: "validate_secrets_loop Map.empty specs = validate_secrets_loop M' (s # post)"
    using M by (simp add: assms(1) validate_secrets_loop_append)
  show "Name s = [] \<Longrightarrow>
           ValidateSecretsAndMounts specs mounts = Some (InvalidSecret SecretNameRequired)"
    using l by (simp add: ValidateSecretsAndMounts_def SecretSpec_Validate_def)
  show "Name s \<noteq> [] \<Longrightarrow> Name s \<in> Name ` set pre \<Longrightarrow>
           ValidateSecretsAndMounts specs mounts = Some (DuplicateSecretName (Name s))"
    using l d [of "Name s"] by (auto simp: ValidateSecretsAndMounts_def SecretSpec_Validate_def)
qed

lemma Validate_mount_error:
  assumes "specs_ok specs" "mounts = pre @ m # post" "list_all (mount_ok specs) pre"
  shows "ValidateSecretsAndMounts specs mounts =
           (case SecretMount_Validate m of
              Some e \<Rightarrow> Some (InvalidSecretMount e)
            | None \<Rightarrow>
                if SecretName m \<in> Name ` set specs
                then ValidateSecretsAndMounts specs post
                else Some (MountSourceUndefined (SecretName m)))"
proof -
  obtain M' where M: "validate_secrets_loop Map.empty specs = Inr M'"
    and d: "\<And>n. M' n \<noteq> None \<longleftrightarrow> n \<in> Name ` set specs"
    using specs_ok_loop [OF assms(1)] by blast
  have "validate_mounts_loop M' pre = None"
    using assms(3) d
    by (auto simp: validate_mounts_loop_None SecretMount_Validate_None mount_ok_def list_all_iff)
  then have "validate_mounts_loop M' mounts = validate_mounts_loop M' (m # post)"
    by (simp add: assms(2) validate_mounts_loop_append)
  then show ?thesis using M d [of "SecretName m"]
    by (auto simp: ValidateSecretsAndMounts_def split: option.splits)
qed

lemma SecretMount_Validate_Some:
  assumes "SecretName m \<noteq> []"
  shows "\<not> id_string_ok (Uid m) \<Longrightarrow>
           \<exists>e. SecretMount_Validate m = Some e \<and> GetNumericUid m = Inl e"
    and "id_string_ok (Uid m) \<Longrightarrow> \<not> id_string_ok (Gid m) \<Longrightarrow>
           \<exists>e. SecretMount_Validate m = Some e \<and> GetNumericGid m = Inl e"
    and "id_string_ok (Uid m) \<Longrightarrow> id_string_ok (Gid m) \<Longrightarrow>
         ContainerPath m \<noteq> [] \<Longrightarrow> \<not> IsAbs (ContainerPath m) \<Longrightarrow>
           SecretMount_Validate m = Some ContainerPathNotAbsolute"
  using assms GetNumericUid_ok_iff [of m] GetNumericGid_ok_iff [of m]
  by (cases "GetNumericUid m"; cases "GetNumericGid m";
      auto simp: SecretMount_Validate_def)+

lemma dec_value_big: "is_decimal ''9223372036854775808'' \<and> dec_value ''9223372036854775808'' = 2 ^ 63"
  by (simp add: is_decimal_def is_digit_def less_eq_char_def dec_value_def digit_val_def)

lemma ParseUint_big: "ParseUint ''9223372036854775808'' = Inr 9223372036854775808"
  using dec_value_big by (simp add: ParseUint_Inr)

lemma dec_value_1000: "is_decimal ''1000'' \<and> dec_value ''1000'' = 1000"
  by (simp add: is_decimal_def is_digit_def less_eq_char_def dec_value_def digit_val_def)

section \<open>The compatibility scanner\<close>

lemma mset_insert_by: "mset (insert_by cmp x ys) = add_mset x (mset ys)"
  by (induction ys) simp_all

lemma mset_SortFunc_acc:
  "mset (foldl (\<lambda>sorted x. insert_by cmp x sorted) acc xs) = mset acc + mset xs"
  by (induction xs arbitrary: acc) (simp_all add: mset_insert_by)

lemma mset_SortFunc: "mset (SortFunc cmp xs) = mset xs"
  by (simp add: SortFunc_def mset_SortFunc_acc)

lemma set_SortFunc: "set (SortFunc cmp xs) = set xs"
  using mset_SortFunc [of cmp xs] by (metis set_mset_mset)

lemma length_filter_SortFunc:
  "length (filter P (SortFunc cmp xs)) = length (filter P xs)"
proof -
  have "mset (filter P (SortFunc cmp xs)) = mset (filter P xs)"
    by (simp add: mset_SortFunc)
  then show ?thesis by (metis size_mset)
qed

lemma cmpKey_less: "cmpKey a b < 0 \<longleftrightarrow> Key a < Key b"
  by (simp add: cmpKey_def)

lemma set_insert_by: "set (insert_by cmp x ys) = insert x (set ys)"
  by (induction ys) auto

lemma sorted_insert_by:
  "sorted (map Key ys) \<Longrightarrow> sorted (map Key (insert_by cmpKey x ys))"
proof (induction ys)
  case Nil
  show ?case by simp
next
  case (Cons y ys)
  show ?case
  proof (cases "Key x < Key y")
    case True
    then show ?thesis using Cons.prems by (auto simp: cmpKey_less)
  next
    case False
    then have "Key y \<le> Key x" by simp
    then show ?thesis using False Cons
      by (auto simp: cmpKey_less set_insert_by)
  qed
qed

lemma sorted_SortFunc_acc:
  "sorted (map Key acc) \<Longrightarrow>
   sorted (map Key (foldl (\<lambda>sorted x. insert_by cmpKey x sorted) acc xs))"
  by (induction xs arbitrary: acc) (simp_all add: sorted_insert_by)

lemma sorted_SortFunc: "sorted (map Key (SortFunc cmpKey xs))"
  by (simp add: SortFunc_def sorted_SortFunc_acc)

lemma CheckProjectWarnings_loop_concat:
  "CheckProjectWarnings_loop project warnings names =
     warnings @ concat (map (\<lambda>name. checkServiceWarnings project name (lookupService project name)) names)"
  by (induction names arbitrary: warnings) (simp_all add: Let_def)

lemma Service_warn_if: "w \<in> set (warn_if c n k m) \<Longrightarrow> Service w = n"
  by (auto simp: warn_if_def split: if_splits)

lemma Service_checkDeployWarnings: "w \<in> set (checkDeployWarnings n d) \<Longrightarrow> Service w = n"
  by (auto simp: checkDeployWarnings_def dest: Service_warn_if split: option.splits)

lemma Service_serviceChecks: "w \<in> set (serviceChecks p n s) \<Longrightarrow> Service w = n"
  by (auto simp: serviceChecks_def dest: Service_warn_if Service_checkDeployWarnings
        split: option.splits)

lemma filter_warn_if:
  "filter (\<lambda>w. Key w = k') (warn_if c n k m) = (if k = k' then warn_if c n k m else [])"
  by (simp add: warn_if_def)

lemma length_warn_if: "length (warn_if c n k m) = (if c then 1 else 0)"
  by (simp add: warn_if_def)

lemma deploy_no_networks:
  "filter (\<lambda>w. Key w = ''networks'') (checkDeployWarnings n d) = []"
  unfolding checkDeployWarnings_def
  by (simp add: filter_warn_if split: option.split)

lemma deploy_no_depends_on:
  "filter (\<lambda>w. Key w = ''depends_on'') (checkDeployWarnings n d) = []"
  unfolding checkDeployWarnings_def
  by (simp add: filter_warn_if split: option.split)

lemma deploy_no_links:
  "filter (\<lambda>w. Key w = ''links'') (checkDeployWarnings n d) = []"
  unfolding checkDeployWarnings_def
  by (simp add: filter_warn_if split: option.split)

lemma filter_networks:
  "filter (\<lambda>w. Key w = ''networks'') (serviceChecks p n s) =
     warn_if (length (Networks s) > 0 \<and> hasUserDefinedNetworks p s) n ''networks''
       '''networks' is not supported. Uncloud uses a flat mesh network with built-in service discovery.''"
  unfolding serviceChecks_def
  by (simp add: filter_warn_if deploy_no_networks split: option.split)

lemma filter_depends_on:
  "filter (\<lambda>w. Key w = ''depends_on'') (serviceChecks p n s) =
     warn_if (length (DependsOn s) > 0 \<and> length (Links s) = 0) n ''depends_on''
       '''depends_on' is not supported. Services start independently.''"
  unfolding serviceChecks_def
  by (simp add: filter_warn_if deploy_no_depends_on split: option.split)

lemma filter_links:
  "filter (\<lambda>w. Key w = ''links'') (serviceChecks p n s) =
     warn_if (length (Links s) > 0) n ''links''
       '''links' is deprecated and not supported. Use service names for discovery.''"
  unfolding serviceChecks_def
  by (simp add: filter_warn_if deploy_no_links split: option.split)

lemma networks_loop_iff:
  "networks_loop d nets \<longleftrightarrow> (\<exists>nw \<in> fst ` set nets. nw \<noteq> d \<and> nw \<noteq> ''default'')"
  by (induction d nets rule: networks_loop.induct) auto

lemma hasUserDefinedNetworks_iff:
  "hasUserDefinedNetworks project service \<longleftrightarrow>
     (\<exists>nw \<in> fst ` set (Networks service). nw \<noteq> ProjectName project \<and> nw \<noteq> ''default'')"
  by (cases "Networks service") (simp_all add: hasUserDefinedNetworks_def networks_loop_iff Let_def)

lemma count_networks:
  "length (filter (\<lambda>w. Key w = ''networks'') (checkServiceWarnings project name service)) =
     (if \<exists>nw \<in> fst ` set (Networks service). nw \<noteq> ProjectName project \<and> nw \<noteq> ''default''
      then 1 else 0)"
proof -
  have "(length (Networks service) > 0 \<and> hasUserDefinedNetworks project service) \<longleftrightarrow>
      (\<exists>nw \<in> fst ` set (Networks service). nw \<noteq> ProjectName project \<and> nw \<noteq> ''default'')"
    by (cases "Networks service") (simp_all add: hasUserDefinedNetworks_iff)
  then show ?thesis
    by (simp only: checkServiceWarnings_def length_filter_SortFunc filter_networks length_warn_if)
qed

lemma count_depends_on:
  "length (filter (\<lambda>w. Key w = ''depends_on'') (checkServiceWarnings project name service)) =
     (if DependsOn service \<noteq> [] \<and> Links service = [] then 1 else 0)"
  by (simp add: checkServiceWarnings_def length_filter_SortFunc filter_depends_on length_warn_if)

lemma count_links:
  "length (filter (\<lambda>w. Key w = ''links'') (checkServiceWarnings project name service)) =
     (if Links service \<noteq> [] then 1 else 0)"
  by (simp add: checkServiceWarnings_def length_filter_SortFunc filter_links length_warn_if)

lemma ex_web_warnings:
  "checkServiceWarnings ex_project ''web'' ex_web =
     [\<lparr>Service = ''web'', Key = ''links'',
       Message = '''links' is deprecated and not supported. Use service names for discovery.''\<rparr>,
      \<lparr>Service = ''web'', Key = ''networks'',
       Message = '''networks' is not supported. Uncloud uses a flat mesh network with built-in service discovery.''\<rparr>,
      \<lparr>Service = ''web'', Key = ''restart'',
       Message = '''restart' is not supported. Uncloud manages container lifecycle automatically.''\<rparr>]"
  by (simp add: checkServiceWarnings_def serviceChecks_def ex_web_def zeroServiceConfig_def
        ex_project_def hasUserDefinedNetworks_def warn_if_def SortFunc_def cmpKey_def)

lemma ex_db_warnings:
  "checkServiceWarnings ex_project ''db'' ex_db =
     [\<lparr>Service = ''db'', Key = ''build'',
       Message = '''build' is not supported. Pre-build images and specify 'image' instead.''\<rparr>,
      \<lparr>Service = ''db'', Key = ''depends_on'',
       Message = '''depends_on' is not supported. Services start independently.''\<rparr>]"
  by (simp add: checkServiceWarnings_def serviceChecks_def ex_db_def zeroServiceConfig_def
        ex_project_def hasUserDefinedNetworks_def warn_if_def SortFunc_def cmpKey_def)

lemma subseq_warn_if:
  "subseq ks all \<Longrightarrow> subseq (map Key (warn_if c n k m) @ ks) (k # all)"
  by (cases c) (simp_all add: warn_if_def list_emb_Cons)

lemma subseq_warn_if_last:
  "subseq (map Key (warn_if c n k m)) [k]"
  by (simp add: warn_if_def)

lemma subseq_deploy_update:
  "subseq (map Key (case u of None \<Rightarrow> [] | Some updateConfig \<Rightarrow>
          warn_if (Parallelism updateConfig \<noteq> None) serviceName
            ''deploy.update_config.parallelism''
            '''deploy.update_config.parallelism' is not supported.'' @
          warn_if (Delay updateConfig > 0) serviceName
            ''deploy.update_config.delay''
            '''deploy.update_config.delay' is not supported.'' @
          warn_if (FailureAction updateConfig \<noteq> []) serviceName
            ''deploy.update_config.failure_action''
            '''deploy.update_config.failure_action' is not supported.'' @
          warn_if (Monitor updateConfig > 0) serviceName
            ''deploy.update_config.monitor''
            '''deploy.update_config.monitor' is not supported.'' @
          warn_if (MaxFailureRatio updateConfig > 0) serviceName
            ''deploy.update_config.max_failure_ratio''
            '''deploy.update_config.max_failure_ratio' is not supported.''))
     [''deploy.update_config.parallelism'', ''deploy.update_config.delay'',
      ''deploy.update_config.failure_action'', ''deploy.update_config.monitor'',
      ''deploy.update_config.max_failure_ratio'']"
proof (cases u)
  case None
  then show ?thesis by simp
next
  case (Some uc)
  show ?thesis unfolding Some option.case map_append
    by (intro subseq_warn_if subseq_warn_if_last)
qed

lemma subseq_deploy: "subseq (map Key (checkDeployWarnings n d)) deploy_keys"
  unfolding checkDeployWarnings_def deploy_keys_def map_append
  by (intro subseq_warn_if subseq_deploy_update)

lemma subseq_deploy_opt:
  "subseq (map Key (case dep of None \<Rightarrow> [] | Some deploy \<Rightarrow> checkDeployWarnings n deploy))
     deploy_keys"
  by (cases dep) (simp_all add: subseq_deploy)

lemma subseq_service:
  "subseq (map Key (serviceChecks p n s)) (service_keys @ deploy_keys)"
  unfolding serviceChecks_def service_keys_def map_append append_Cons append_Nil
  by (intro subseq_warn_if subseq_deploy_opt)

lemma distinct_all_keys: "distinct (service_keys @ deploy_keys)"
  by (simp add: service_keys_def deploy_keys_def)

lemma subseq_keeps_distinct: "subseq xs ys \<Longrightarrow> distinct ys \<Longrightarrow> distinct xs"
proof (induction rule: list_emb.induct)
  case (list_emb_Nil ys)
  show ?case by simp
next
  case (list_emb_Cons xs ys y)
  then show ?case by simp
next
  case (list_emb_Cons2 x y xs ys)
  then have "y \<notin> set ys" "x = y" by simp_all
  then have "x \<notin> set xs"
    using list_emb_Cons2(2) by (auto elim: list_emb_set)
  then show ?case using list_emb_Cons2 by simp
qed

lemma distinct_keys_serviceChecks: "distinct (map Key (serviceChecks p n s))"
  using subseq_service distinct_all_keys by (rule subseq_keeps_distinct)

lemma distinct_keys_checkServiceWarnings:
  "distinct (map Key (checkServiceWarnings p n s))"
proof -
  have "mset (map Key (checkServiceWarnings p n s)) = mset (map Key (serviceChecks p n s))"
    by (simp add: checkServiceWarnings_def mset_SortFunc)
  from mset_eq_imp_distinct_iff [OF this] show ?thesis
    using distinct_keys_serviceChecks [of p n s] by simp
qed

lemma checkServiceWarnings_unique:
  assumes "mset ys = mset (serviceChecks p n s)" and "sorted (map Key ys)"
  shows "ys = checkServiceWarnings p n s"
proof -
  let ?zs = "checkServiceWarnings p n s"
  have m: "mset ys = mset ?zs"
    using assms(1) by (simp add: checkServiceWarnings_def mset_SortFunc)
  then have mk: "mset (map Key ys) = mset (map Key ?zs)" by simp
  have sz: "sorted (map Key ?zs)"
    by (simp add: checkServiceWarnings_def sorted_SortFunc)
  have "sort (map Key ?zs) = map Key ys"
    using mk assms(2) by (rule properties_for_sort)
  moreover have "sort (map Key ?zs) = map Key ?zs"
    using sz by (rule sorted_sort_id)
  ultimately have k: "map Key ys = map Key ?zs" by simp
  have "distinct (map Key ?zs)" by (rule distinct_keys_checkServiceWarnings)
  then have "inj_on Key (set ?zs)" by (simp add: distinct_map)
  moreover have "set ys = set ?zs" using m by (rule mset_eq_setD)
  ultimately have "inj_on Key (set ys \<union> set ?zs)" by simp
  then show ?thesis using k by (simp add: inj_on_map_eq_map)
qed

lemma count_deploy_placement:
  "length (filter (\<lambda>w. Key w = ''deploy.placement'') (checkDeployWarnings n d)) =
     (if Constraints (Placement d) \<noteq> None \<or> Preferences (Placement d) \<noteq> [] then 1 else 0)"
  unfolding checkDeployWarnings_def
  by (simp add: filter_warn_if length_warn_if split: option.split)

lemma deploy_ignores_replicas_and_order:
  "checkDeployWarnings n (d\<lparr>Replicas := r\<rparr>) = checkDeployWarnings n d"
  "UpdateConfig d = Some u \<Longrightarrow>
     checkDeployWarnings n (d\<lparr>UpdateConfig := Some (u\<lparr>Order := ord\<rparr>)\<rparr>) = checkDeployWarnings n d"
  by (simp_all add: checkDeployWarnings_def)

lemma ServiceNames_sorted_distinct:
  "sorted (ServiceNames project) \<and> distinct (ServiceNames project) \<and>
   set (ServiceNames project) = fst ` set (Services project)"
  by (simp add: ServiceNames_def)

lemma Service_checkServiceWarnings:
  "w \<in> set (checkServiceWarnings project name service) \<Longrightarrow> Service w = name"
  by (simp add: checkServiceWarnings_def set_SortFunc Service_serviceChecks)

lemma sorted_constant: "\<forall>x \<in> set xs. x = (n :: string) \<Longrightarrow> sorted xs"
  by (induction xs) auto

lemma sorted_tagged_blocks:
  assumes tag: "\<And>n w. w \<in> set (f n) \<Longrightarrow> Service w = n"
  shows "sorted names \<Longrightarrow> sorted (map Service (concat (map f names)))"
proof (induction names)
  case Nil
  show ?case by simp
next
  case (Cons n names)
  have blk: "\<forall>x \<in> set (map Service (f n)). x = n"
    using tag by auto
  then have 1: "sorted (map Service (f n))"
    by (rule sorted_constant)
  have 2: "sorted (map Service (concat (map f names)))"
    using Cons by simp
  have "\<forall>y \<in> set (map Service (concat (map f names))). y \<in> set names"
    using tag by auto
  then have 3: "\<forall>x \<in> set (map Service (f n)). \<forall>y \<in> set (map Service (concat (map f names))). x \<le> y"
    using blk Cons.prems by auto
  show ?case using 1 2 3 by (simp add: sorted_append)
qed

lemma filter_tagged_blocks:
  assumes tag: "\<And>n w. w \<in> set (f n) \<Longrightarrow> Service w = n"
  shows "distinct names \<Longrightarrow> name \<in> set names \<Longrightarrow>
         filter (\<lambda>w. Service w = name) (concat (map f names)) = f name"
proof (induction names)
  case Nil
  then show ?case by simp
next
  case (Cons n names)
  have other: "filter (\<lambda>w. Service w = name) (concat (map f ms)) = []" if "name \<notin> set ms" for ms
    using that tag by (induction ms) (auto simp: filter_empty_conv)
  show ?case
  proof (cases "n = name")
    case True
    then have "name \<notin> set names" using Cons.prems(1) by simp
    then have "filter (\<lambda>w. Service w = name) (concat (map f names)) = []" by (rule other)
    moreover have "filter (\<lambda>w. Service w = name) (f name) = f name"
      using tag by (simp add: filter_id_conv)
    ultimately show ?thesis using True by simp
  next
    case False
    then have "filter (\<lambda>w. Service w = name) (f n) = []"
      using tag by (auto simp: filter_empty_conv)
    moreover have "filter (\<lambda>w. Service w = name) (concat (map f names)) = f name"
      using Cons False by simp
    ultimately show ?thesis by simp
  qed
qed

lemma CheckProjectWarnings_concat:
  "CheckProjectWarnings project =
     concat (map (\<lambda>name. checkServiceWarnings project name (lookupService project name))
               (ServiceNames project))"
  by (simp add: CheckProjectWarnings_def CheckProjectWarnings_loop_concat)

lemma ex_order_names: "ServiceNames ex_order_project = [''db'', ''first'', ''second'', ''third'']"
  by (simp add: ServiceNames_def ex_order_project_def)

lemma ex_project_names: "ServiceNames ex_project = [''db'', ''web'']"
  by (simp add: ServiceNames_def ex_project_def)

section \<open>The claims\<close>

text \<open>
  Claim C1, as stated, fails in its first half: the services are not visited in the
  order of declaration. In the project of the repository's own ordering test the
  services are declared third, first, second, db, and the warnings come out for first,
  second, third.
\<close>

theorem warnings_not_in_declared_order:
  "map fst (Services ex_order_project) = [''third'', ''first'', ''second'', ''db''] \<and>
   map (\<lambda>w. (Service w, Key w)) (declared_order_warnings ex_order_project) =
     [(''third'', ''depends_on''), (''first'', ''networks''), (''second'', ''restart'')] \<and>
   map (\<lambda>w. (Service w, Key w)) (CheckProjectWarnings ex_order_project) =
     [(''first'', ''networks''), (''second'', ''restart''), (''third'', ''depends_on'')] \<and>
   CheckProjectWarnings ex_order_project \<noteq> declared_order_warnings ex_order_project"
proof -
  have t: "map (\<lambda>w. (Service w, Key w)) (checkServiceWarnings ex_order_project ''third'' ex_third) =
      [(''third'', ''depends_on'')]"
    by (simp add: checkServiceWarnings_def serviceChecks_def ex_third_def zeroServiceConfig_def
          ex_order_project_def hasUserDefinedNetworks_def warn_if_def SortFunc_def cmpKey_def)
  have f: "map (\<lambda>w. (Service w, Key w)) (checkServiceWarnings ex_order_project ''first'' ex_first) =
      [(''first'', ''networks'')]"
    by (simp add: checkServiceWarnings_def serviceChecks_def ex_first_def zeroServiceConfig_def
          ex_order_project_def hasUserDefinedNetworks_def warn_if_def SortFunc_def cmpKey_def)
  have s: "map (\<lambda>w. (Service w, Key w)) (checkServiceWarnings ex_order_project ''second'' ex_second) =
      [(''second'', ''restart'')]"
    by (simp add: checkServiceWarnings_def serviceChecks_def ex_second_def zeroServiceConfig_def
          ex_order_project_def hasUserDefinedNetworks_def warn_if_def SortFunc_def cmpKey_def)
  have d: "checkServiceWarnings ex_order_project ''db'' zeroServiceConfig = []"
    by (simp add: checkServiceWarnings_def serviceChecks_def zeroServiceConfig_def
          ex_order_project_def hasUserDefinedNetworks_def warn_if_def SortFunc_def cmpKey_def)
  have l: "lookupService ex_order_project ''third'' = ex_third"
    "lookupService ex_order_project ''first'' = ex_first"
    "lookupService ex_order_project ''second'' = ex_second"
    "lookupService ex_order_project ''db'' = zeroServiceConfig"
    by (simp_all add: lookupService_def ex_order_project_def)
  have sv: "Services ex_order_project =
      [(''third'', ex_third), (''first'', ex_first), (''second'', ex_second),
       (''db'', zeroServiceConfig)]"
    by (simp add: ex_order_project_def)
  have a: "map (\<lambda>w. (Service w, Key w)) (declared_order_warnings ex_order_project) =
     [(''third'', ''depends_on''), (''first'', ''networks''), (''second'', ''restart'')]"
    by (simp add: declared_order_warnings_def sv t f s d)
  have b: "map (\<lambda>w. (Service w, Key w)) (CheckProjectWarnings ex_order_project) =
     [(''first'', ''networks''), (''second'', ''restart''), (''third'', ''depends_on'')]"
    by (simp add: CheckProjectWarnings_concat ex_order_names l t f s d)
  have "map (\<lambda>w. (Service w, Key w)) (CheckProjectWarnings ex_order_project) \<noteq>
      map (\<lambda>w. (Service w, Key w)) (declared_order_warnings ex_order_project)"
    unfolding a b by simp
  then have c: "CheckProjectWarnings ex_order_project \<noteq> declared_order_warnings ex_order_project"
    by auto
  show ?thesis using a b c by (simp add: sv)
qed

text \<open>
  Claim C1, amended. The warnings of a project are the warnings of its services, one
  block per service, in ascending order of the service names, byte-wise and
  lexicographically, whatever the order of declaration: the names are visited sorted and
  each once, the service names along the warning list are ascending, and the warnings
  of one service are exactly its block. Within a block every warning carries the
  service's name and the keys are in ascending order, byte-wise and lexicographically,
  with no key twice.
\<close>

theorem warnings_in_name_order_sorted:
  "CheckProjectWarnings project =
     concat (map (\<lambda>name. checkServiceWarnings project name (lookupService project name))
               (ServiceNames project)) \<and>
   sorted (ServiceNames project) \<and> distinct (ServiceNames project) \<and>
   set (ServiceNames project) = fst ` set (Services project) \<and>
   sorted (map Service (CheckProjectWarnings project)) \<and>
   (\<forall>name \<in> fst ` set (Services project).
      filter (\<lambda>w. Service w = name) (CheckProjectWarnings project) =
        checkServiceWarnings project name (lookupService project name)) \<and>
   (\<forall>name service.
      sorted (map Key (checkServiceWarnings project name service)) \<and>
      distinct (map Key (checkServiceWarnings project name service)) \<and>
      (\<forall>w \<in> set (checkServiceWarnings project name service). Service w = name))"
proof -
  let ?f = "\<lambda>name. checkServiceWarnings project name (lookupService project name)"
  note n = ServiceNames_sorted_distinct [of project]
  have tag: "\<And>m w. w \<in> set (?f m) \<Longrightarrow> Service w = m"
    by (rule Service_checkServiceWarnings)
  have 1: "CheckProjectWarnings project = concat (map ?f (ServiceNames project))"
    by (rule CheckProjectWarnings_concat)
  have sn: "sorted (ServiceNames project)" and dn: "distinct (ServiceNames project)"
    using n by simp_all
  have 2: "sorted (map Service (CheckProjectWarnings project))"
    unfolding 1 by (rule sorted_tagged_blocks [of ?f, OF tag sn])
  have 3: "filter (\<lambda>w. Service w = name) (CheckProjectWarnings project) = ?f name"
    if "name \<in> fst ` set (Services project)" for name
  proof -
    have "name \<in> set (ServiceNames project)"
      using n that by simp
    from filter_tagged_blocks [of ?f, OF tag dn this] show ?thesis
      unfolding 1 by simp
  qed
  have b3: "\<forall>name \<in> fst ` set (Services project).
      filter (\<lambda>w. Service w = name) (CheckProjectWarnings project) = ?f name"
    using 3 by simp
  have 4: "sorted (map Key (checkServiceWarnings project name service))" for name service
    by (simp add: checkServiceWarnings_def sorted_SortFunc)
  have 5: "\<forall>w \<in> set (checkServiceWarnings project name service). Service w = name"
    for name service
    using Service_checkServiceWarnings by blast
  have 6: "\<forall>name service.
      sorted (map Key (checkServiceWarnings project name service)) \<and>
      distinct (map Key (checkServiceWarnings project name service)) \<and>
      (\<forall>w \<in> set (checkServiceWarnings project name service). Service w = name)"
    by (intro allI conjI 4 5 distinct_keys_checkServiceWarnings)
  have n3: "set (ServiceNames project) = fst ` set (Services project)"
    using n by simp
  show ?thesis
    by (intro conjI 1 sn dn n3 2 b3 6)
qed

theorem warnings_in_name_order_sorted_witness:
  "map fst (Services ex_project) = [''web'', ''db''] \<and>
   ServiceNames ex_project = [''db'', ''web''] \<and>
   map (\<lambda>w. (Service w, Key w)) (CheckProjectWarnings ex_project) =
     [(''db'', ''build''), (''db'', ''depends_on''),
      (''web'', ''links''), (''web'', ''networks''), (''web'', ''restart'')] \<and>
   sorted (map Service (CheckProjectWarnings ex_project)) \<and>
   filter (\<lambda>w. Service w = ''web'') (CheckProjectWarnings ex_project) =
     checkServiceWarnings ex_project ''web'' ex_web \<and>
   sorted (map Key (checkServiceWarnings ex_project ''web'' ex_web)) \<and>
   map Service (checkServiceWarnings ex_project ''web'' ex_web) = [''web'', ''web'', ''web'']"
proof -
  have l: "lookupService ex_project ''db'' = ex_db" "lookupService ex_project ''web'' = ex_web"
    by (simp_all add: lookupService_def ex_project_def)
  have sv: "map fst (Services ex_project) = [''web'', ''db'']"
    by (simp add: ex_project_def)
  have m: "''web'' \<in> fst ` set (Services ex_project)"
    by (simp add: ex_project_def)
  note n = ex_project_names
  note t = warnings_in_name_order_sorted [of ex_project]
  note t1 = t [THEN conjunct1]
  note t5 = t [THEN conjunct2, THEN conjunct2, THEN conjunct2, THEN conjunct2, THEN conjunct1]
  note t6 = t [THEN conjunct2, THEN conjunct2, THEN conjunct2, THEN conjunct2, THEN conjunct2,
    THEN conjunct1]
  note t7 = t [THEN conjunct2, THEN conjunct2, THEN conjunct2, THEN conjunct2, THEN conjunct2,
    THEN conjunct2]
  have "CheckProjectWarnings ex_project =
      checkServiceWarnings ex_project ''db'' ex_db @ checkServiceWarnings ex_project ''web'' ex_web"
    using t1 by (simp add: n l)
  then have a: "map (\<lambda>w. (Service w, Key w)) (CheckProjectWarnings ex_project) =
     [(''db'', ''build''), (''db'', ''depends_on''),
      (''web'', ''links''), (''web'', ''networks''), (''web'', ''restart'')]"
    by (simp add: ex_db_warnings ex_web_warnings)
  have b: "sorted (map Service (CheckProjectWarnings ex_project))"
    by (rule t5)
  have "filter (\<lambda>w. Service w = ''web'') (CheckProjectWarnings ex_project) =
      checkServiceWarnings ex_project ''web'' (lookupService ex_project ''web'')"
    using t6 m by (rule bspec)
  then have c: "filter (\<lambda>w. Service w = ''web'') (CheckProjectWarnings ex_project) =
      checkServiceWarnings ex_project ''web'' ex_web"
    by (simp only: l)
  have d: "sorted (map Key (checkServiceWarnings ex_project ''web'' ex_web))"
    using t7 [THEN spec, THEN spec, THEN conjunct1] .
  have e: "map Service (checkServiceWarnings ex_project ''web'' ex_web) = [''web'', ''web'', ''web'']"
    by (simp add: ex_web_warnings)
  show ?thesis
    by (intro conjI sv n a b c d e)
qed

text \<open>
  Claim C2. A service whose network attachments are all named after the project or
  \<open>default\<close> gets no warning with the key \<open>networks\<close>; a service with an attachment of
  any other name gets exactly one.
\<close>

theorem networks_warning:
  "((\<forall>nw \<in> fst ` set (Networks service). nw = ProjectName project \<or> nw = ''default'') \<longrightarrow>
      filter (\<lambda>w. Key w = ''networks'') (checkServiceWarnings project name service) = []) \<and>
   ((\<exists>nw \<in> fst ` set (Networks service). nw \<noteq> ProjectName project \<and> nw \<noteq> ''default'') \<longrightarrow>
      length (filter (\<lambda>w. Key w = ''networks'') (checkServiceWarnings project name service)) = 1)"
proof -
  note c = count_networks [of project name service]
  have "(\<forall>nw \<in> fst ` set (Networks service). nw = ProjectName project \<or> nw = ''default'') \<longrightarrow>
      length (filter (\<lambda>w. Key w = ''networks'') (checkServiceWarnings project name service)) = 0"
    unfolding c by auto
  moreover have "(\<exists>nw \<in> fst ` set (Networks service). nw \<noteq> ProjectName project \<and> nw \<noteq> ''default'') \<longrightarrow>
      length (filter (\<lambda>w. Key w = ''networks'') (checkServiceWarnings project name service)) = 1"
    unfolding c by simp
  ultimately show ?thesis by simp
qed

theorem networks_warning_witness:
  "ProjectName ex_project = ''shop'' \<and>
   map fst (Networks ex_db) = [''default'', ''shop''] \<and>
   filter (\<lambda>w. Key w = ''networks'') (checkServiceWarnings ex_project ''db'' ex_db) = [] \<and>
   map fst (Networks ex_web) = [''shop'', ''backend''] \<and>
   length (filter (\<lambda>w. Key w = ''networks'') (checkServiceWarnings ex_project ''web'' ex_web)) = 1"
proof -
  have p: "ProjectName ex_project = ''shop''" by (simp add: ex_project_def)
  have d: "map fst (Networks ex_db) = [''default'', ''shop'']"
    by (simp add: ex_db_def zeroServiceConfig_def)
  have w: "map fst (Networks ex_web) = [''shop'', ''backend'']"
    by (simp add: ex_web_def zeroServiceConfig_def)
  have sd: "fst ` set (Networks ex_db) = {''default'', ''shop''}"
    by (simp add: ex_db_def zeroServiceConfig_def)
  have sw: "fst ` set (Networks ex_web) = {''shop'', ''backend''}"
    by (simp add: ex_web_def zeroServiceConfig_def)
  have "\<forall>nw \<in> fst ` set (Networks ex_db). nw = ProjectName ex_project \<or> nw = ''default''"
    unfolding sd p by simp
  then have a: "filter (\<lambda>w. Key w = ''networks'') (checkServiceWarnings ex_project ''db'' ex_db) = []"
    using networks_warning [of ex_db ex_project "''db''"] by blast
  have "\<exists>nw \<in> fst ` set (Networks ex_web). nw \<noteq> ProjectName ex_project \<and> nw \<noteq> ''default''"
    unfolding sw p by simp
  then have b: "length (filter (\<lambda>w. Key w = ''networks'')
      (checkServiceWarnings ex_project ''web'' ex_web)) = 1"
    using networks_warning [of ex_web ex_project "''web''"] by blast
  show ?thesis using p d w a b by simp
qed

text \<open>
  Claim C3. A service with a non-empty \<open>depends_on\<close> and no links gets the warning with
  the key \<open>depends_on\<close>; with both non-empty it gets the \<open>links\<close> warning and no
  \<open>depends_on\<close> warning.
\<close>

theorem depends_on_warning:
  "(DependsOn service \<noteq> [] \<and> Links service = [] \<longrightarrow>
      length (filter (\<lambda>w. Key w = ''depends_on'') (checkServiceWarnings project name service)) = 1) \<and>
   (DependsOn service \<noteq> [] \<and> Links service \<noteq> [] \<longrightarrow>
      length (filter (\<lambda>w. Key w = ''links'') (checkServiceWarnings project name service)) = 1 \<and>
      filter (\<lambda>w. Key w = ''depends_on'') (checkServiceWarnings project name service) = [])"
proof -
  let ?ws = "checkServiceWarnings project name service"
  have a: "DependsOn service \<noteq> [] \<and> Links service = [] \<longrightarrow>
      length (filter (\<lambda>w. Key w = ''depends_on'') ?ws) = 1"
    by (simp only: count_depends_on) simp
  have b: "Links service \<noteq> [] \<longrightarrow> length (filter (\<lambda>w. Key w = ''links'') ?ws) = 1"
    by (simp only: count_links) simp
  have "Links service \<noteq> [] \<longrightarrow> length (filter (\<lambda>w. Key w = ''depends_on'') ?ws) = 0"
    by (simp only: count_depends_on) simp
  then have c: "Links service \<noteq> [] \<longrightarrow> filter (\<lambda>w. Key w = ''depends_on'') ?ws = []"
    by (simp only: length_0_conv)
  show ?thesis using a b c by blast
qed

theorem depends_on_warning_witness:
  "DependsOn ex_db = [(''cache'', ''service_healthy'')] \<and> Links ex_db = [] \<and>
   length (filter (\<lambda>w. Key w = ''depends_on'') (checkServiceWarnings ex_project ''db'' ex_db)) = 1 \<and>
   DependsOn ex_web = [(''db'', ''service_started'')] \<and> Links ex_web = [''db''] \<and>
   length (filter (\<lambda>w. Key w = ''links'') (checkServiceWarnings ex_project ''web'' ex_web)) = 1 \<and>
   filter (\<lambda>w. Key w = ''depends_on'') (checkServiceWarnings ex_project ''web'' ex_web) = []"
proof -
  have d: "DependsOn ex_db = [(''cache'', ''service_healthy'')]" "Links ex_db = []"
    by (simp_all add: ex_db_def zeroServiceConfig_def)
  have w: "DependsOn ex_web = [(''db'', ''service_started'')]" "Links ex_web = [''db'']"
    by (simp_all add: ex_web_def zeroServiceConfig_def)
  have a: "length (filter (\<lambda>w. Key w = ''depends_on'')
      (checkServiceWarnings ex_project ''db'' ex_db)) = 1"
    using depends_on_warning [of ex_db ex_project "''db''"] d by simp
  have b: "length (filter (\<lambda>w. Key w = ''links'')
      (checkServiceWarnings ex_project ''web'' ex_web)) = 1 \<and>
   filter (\<lambda>w. Key w = ''depends_on'') (checkServiceWarnings ex_project ''web'' ex_web) = []"
    using depends_on_warning [of ex_web ex_project "''web''"] w by simp
  show ?thesis using d w a b by simp
qed

text \<open>
  Claim C4. Resolution returns an error exactly when some reference names a secret that
  the definitions lack, or whose definition is external, or whose definition has a file
  path that cannot be read. The error is the not-found error for a missing name, the
  unsupported error for an external definition, and the read error with the definition's
  own file path for a failed read; with every error the specs and mounts are both empty.
\<close>

theorem resolution_fails_exactly:
  assumes "secretSpecsFromCompose env secrets refs wd = (specs, mounts, err)"
  shows "((err \<noteq> None) =
           (\<exists>r \<in> set refs.
              secrets (Source r) = None \<or>
              (\<exists>d. secrets (Source r) = Some d \<and>
                 (External d \<or>
                  (File d \<noteq> [] \<and>
                   (\<exists>e. ReadFile env (if IsAbs (File d) then File d else Join env wd (File d))
                          = Inl e)))))) \<and>
         (err \<noteq> None \<longrightarrow> specs = [] \<and> mounts = []) \<and>
         (\<forall>n. err = Some (SecretNotFound n) \<longrightarrow>
            (\<exists>r \<in> set refs. Source r = n \<and> secrets n = None)) \<and>
         (\<forall>n. err = Some (ExternalSecretsNotSupported n) \<longrightarrow>
            (\<exists>r \<in> set refs. Source r = n \<and> (\<exists>d. secrets n = Some d \<and> External d))) \<and>
         (\<forall>p e. err = Some (ReadSecretFromFile p e) \<longrightarrow>
            (\<exists>r \<in> set refs. \<exists>d. secrets (Source r) = Some d \<and> \<not> External d \<and>
               File d = p \<and> p \<noteq> [] \<and>
               ReadFile env (if IsAbs p then p else Join env wd p) = Inl e))"
proof -
  let ?bad = "\<lambda>r. secrets (Source r) = None \<or>
              (\<exists>d. secrets (Source r) = Some d \<and>
                 (External d \<or>
                  (File d \<noteq> [] \<and>
                   (\<exists>e. ReadFile env (if IsAbs (File d) then File d else Join env wd (File d))
                          = Inl e))))"
  have bad: "?bad r \<longleftrightarrow> reference_error env secrets wd r \<noteq> None" for r
    by (auto simp: reference_error_def resolved_path_def split: option.splits sum.splits)
  have loop: "secretSpecs_loop env secrets wd [] [] refs = (specs, mounts, err)"
    using assms by (simp add: secretSpecsFromCompose_def)
  show ?thesis
  proof (cases err)
    case None
    then have "\<forall>r \<in> set refs. reference_error env secrets wd r = None"
      using secretSpecs_loop_ok [of env secrets wd "[]" "[]" refs specs mounts] loop by simp
    then have "\<not> (\<exists>r \<in> set refs. ?bad r)" by (simp only: bad) simp
    then show ?thesis using None by simp
  next
    case (Some e)
    from secretSpecs_loop_error [of env secrets wd "[]" "[]" refs specs mounts e] loop Some
    obtain pre r post where
      em: "specs = []" "mounts = []" and r: "refs = pre @ r # post"
      and re: "reference_error env secrets wd r = Some e"
      by auto
    have rin: "r \<in> set refs" using r by simp
    have "?bad r" using re by (simp only: bad) simp
    then have 1: "\<exists>r \<in> set refs. ?bad r" using rin by blast
    have 2: "\<forall>n. e = SecretNotFound n \<longrightarrow>
            (\<exists>r \<in> set refs. Source r = n \<and> secrets n = None)"
      using re rin
      by (auto simp: reference_error_def split: option.splits if_splits sum.splits)
    have 3: "\<forall>n. e = ExternalSecretsNotSupported n \<longrightarrow>
            (\<exists>r \<in> set refs. Source r = n \<and> (\<exists>d. secrets n = Some d \<and> External d))"
      using re rin
      by (auto simp: reference_error_def split: option.splits if_splits sum.splits)
    have 4: "\<forall>p oe. e = ReadSecretFromFile p oe \<longrightarrow>
            (\<exists>r \<in> set refs. \<exists>d. secrets (Source r) = Some d \<and> \<not> External d \<and>
               File d = p \<and> p \<noteq> [] \<and>
               ReadFile env (if IsAbs p then p else Join env wd p) = Inl oe)"
      using re rin
      by (auto simp: reference_error_def resolved_path_def
            split: option.splits if_splits sum.splits)
    show ?thesis using Some em 1 2 3 4 by simp
  qed
qed

theorem resolution_fails_exactly_witness:
  "secretSpecsFromCompose ex_env ex_secrets [ex_ref_file, ex_ref_external, ex_ref_inline] ''/app'' =
     ([], [], Some (ExternalSecretsNotSupported ''vault'')) \<and>
   (\<exists>d. ex_secrets ''vault'' = Some d \<and> External d) \<and>
   secretSpecsFromCompose ex_env ex_secrets [ex_ref_inline, ex_ref_lost] ''/app'' =
     ([], [], Some (ReadSecretFromFile ''/nowhere'' ''no such file or directory'')) \<and>
   ReadFile ex_env ''/nowhere'' = Inl ''no such file or directory'' \<and>
   secretSpecsFromCompose ex_env ex_secrets [ex_ref_ghost] ''/app'' =
     ([], [], Some (SecretNotFound ''ghost'')) \<and>
   ex_secrets ''ghost'' = None \<and>
   secretSpecsFromCompose ex_env ex_secrets [ex_ref_file, ex_ref_inline] ''/app'' =
     (ex_specs, ex_mounts, None) \<and>
   ex_secrets ''app-secret'' \<noteq> None \<and> ex_secrets ''token'' \<noteq> None"
proof -
  have a: "secretSpecsFromCompose ex_env ex_secrets [ex_ref_file, ex_ref_external, ex_ref_inline] ''/app'' =
     ([], [], Some (ExternalSecretsNotSupported ''vault''))"
    by (rule ex_resolution_external)
  have b: "secretSpecsFromCompose ex_env ex_secrets [ex_ref_inline, ex_ref_lost] ''/app'' =
     ([], [], Some (ReadSecretFromFile ''/nowhere'' ''no such file or directory''))"
    by (simp add: secretSpecsFromCompose_def ex_env_def ex_secrets_def ex_ref_inline_def
          ex_ref_lost_def IsAbs_def)
  have c: "secretSpecsFromCompose ex_env ex_secrets [ex_ref_ghost] ''/app'' =
     ([], [], Some (SecretNotFound ''ghost''))"
    by (simp add: secretSpecsFromCompose_def ex_secrets_def ex_ref_ghost_def)
  note d = ex_resolution
  have 1: "\<exists>d. ex_secrets ''vault'' = Some d \<and> External d"
    using resolution_fails_exactly [OF a] by auto
  have "\<exists>r \<in> set [ex_ref_inline, ex_ref_lost]. \<exists>d. ex_secrets (Source r) = Some d \<and>
          \<not> External d \<and> File d = ''/nowhere'' \<and> ''/nowhere'' \<noteq> [] \<and>
          ReadFile ex_env (if IsAbs ''/nowhere'' then ''/nowhere'' else Join ex_env ''/app'' ''/nowhere'')
            = Inl ''no such file or directory''"
    using resolution_fails_exactly [OF b] by blast
  then have 2: "ReadFile ex_env ''/nowhere'' = Inl ''no such file or directory''"
    by (auto simp: IsAbs_def)
  have 3: "ex_secrets ''ghost'' = None"
    using resolution_fails_exactly [OF c] by auto
  have "\<not> (\<exists>r \<in> set [ex_ref_file, ex_ref_inline]. ex_secrets (Source r) = None \<or>
              (\<exists>d. ex_secrets (Source r) = Some d \<and>
                 (External d \<or>
                  (File d \<noteq> [] \<and>
                   (\<exists>e. ReadFile ex_env (if IsAbs (File d) then File d else Join ex_env ''/app'' (File d))
                          = Inl e)))))"
    using resolution_fails_exactly [OF d] by blast
  then have 4: "ex_secrets ''app-secret'' \<noteq> None \<and> ex_secrets ''token'' \<noteq> None"
    by (simp add: ex_ref_file_def ex_ref_inline_def)
  show ?thesis using a b c d 1 2 3 4 by simp
qed

text \<open>
  Claim C5. When resolution succeeds, the spec of a reference whose definition has a file
  path holds the bytes read from that file, whatever the inline content: the path itself
  when it is absolute, the path joined to the working directory otherwise. The spec of a
  reference whose definition has no file path holds the definition's inline content.
\<close>

theorem spec_content_from_file_or_inline:
  assumes "secretSpecsFromCompose env secrets refs wd = (specs, mounts, None)"
    and "i < length refs"
  shows "i < length specs \<and>
         (\<exists>d. secrets (Source (refs ! i)) = Some d \<and>
            (File d \<noteq> [] \<and> IsAbs (File d) \<longrightarrow>
               ReadFile env (File d) = Inr (Content (specs ! i))) \<and>
            (File d \<noteq> [] \<and> \<not> IsAbs (File d) \<longrightarrow>
               ReadFile env (Join env wd (File d)) = Inr (Content (specs ! i))) \<and>
            (File d = [] \<longrightarrow> Content (specs ! i) = ConfigContent d))"
proof -
  have s: "specs = map (reference_spec env secrets wd) refs"
    and e: "\<forall>r \<in> set refs. reference_error env secrets wd r = None"
    using assms(1) by (rule secretSpecsFromCompose_ok)+
  let ?r = "refs ! i"
  have ne: "reference_error env secrets wd ?r = None"
    using e assms(2) by simp
  then obtain d where d: "secrets (Source ?r) = Some d"
    by (auto simp: reference_error_def split: option.splits)
  have c: "Content (specs ! i) = reference_content env secrets wd ?r"
    using s assms(2) by (simp add: reference_spec_def)
  have "File d \<noteq> [] \<longrightarrow>
          ReadFile env (resolved_path env wd (File d)) = Inr (Content (specs ! i))"
    using ne d c
    by (auto simp: reference_error_def reference_content_def split: if_splits sum.splits)
  moreover have "File d = [] \<longrightarrow> Content (specs ! i) = ConfigContent d"
    using d c by (simp add: reference_content_def)
  ultimately show ?thesis
    using d s assms(2) by (auto simp: resolved_path_def)
qed

theorem spec_content_from_file_or_inline_witness:
  "secretSpecsFromCompose ex_env ex_secrets [ex_ref_file, ex_ref_inline] ''/app'' =
     (ex_specs, ex_mounts, None) \<and>
   ex_secrets (Source ([ex_ref_file, ex_ref_inline] ! 0)) =
     Some \<lparr>File = ''testdata/secret1.txt'', ConfigContent = ''ignored'', External = False\<rparr> \<and>
   \<not> IsAbs ''testdata/secret1.txt'' \<and>
   ReadFile ex_env (Join ex_env ''/app'' ''testdata/secret1.txt'') = Inr (Content (ex_specs ! 0)) \<and>
   Content (ex_specs ! 0) = ''test secret content'' \<and>
   ex_secrets (Source ([ex_ref_file, ex_ref_inline] ! 1)) =
     Some \<lparr>File = [], ConfigContent = ''s3cr3t'', External = False\<rparr> \<and>
   Content (ex_specs ! 1) = ''s3cr3t''"
proof -
  note r = ex_resolution
  have d0: "ex_secrets (Source ([ex_ref_file, ex_ref_inline] ! 0)) =
     Some \<lparr>File = ''testdata/secret1.txt'', ConfigContent = ''ignored'', External = False\<rparr>"
    by (simp add: ex_secrets_def ex_ref_file_def)
  have d1: "ex_secrets (Source ([ex_ref_file, ex_ref_inline] ! 1)) =
     Some \<lparr>File = [], ConfigContent = ''s3cr3t'', External = False\<rparr>"
    by (simp add: ex_secrets_def ex_ref_inline_def)
  have a: "\<not> IsAbs ''testdata/secret1.txt''" by (simp add: IsAbs_def)
  have "ReadFile ex_env (Join ex_env ''/app'' ''testdata/secret1.txt'') = Inr (Content (ex_specs ! 0))"
    using spec_content_from_file_or_inline [OF r, of 0] d0 a by simp
  moreover have "Content (ex_specs ! 1) = ''s3cr3t''"
    using spec_content_from_file_or_inline [OF r, of 1] d1 by simp
  moreover have "Content (ex_specs ! 0) = ''test secret content''"
    by (simp add: ex_specs_def)
  ultimately show ?thesis using r d0 d1 a by simp
qed

text \<open>
  Claim C6, as stated, fails: the uid string \<open>9223372036854775808\<close> (\<open>2 ^ 63\<close>) is a
  decimal numeral that \<open>ParseUint\<close> accepts as an unsigned 64-bit value, yet
  \<open>GetNumericUid\<close> and \<open>Validate\<close> reject it as too high.
\<close>

theorem uid_above_int64_rejected:
  "is_decimal ''9223372036854775808'' \<and>
   dec_value ''9223372036854775808'' < 2 ^ 64 \<and>
   ParseUint ''9223372036854775808'' = Inr 9223372036854775808 \<and>
   GetNumericUid ex_mount_big = Inl (UidTooHigh ''9223372036854775808'') \<and>
   SecretMount_Validate ex_mount_big = Some (UidTooHigh ''9223372036854775808'')"
proof -
  have u: "GetNumericUid ex_mount_big = Inl (UidTooHigh ''9223372036854775808'')"
    using ParseUint_big by (simp add: GetNumericUid_def ex_mount_big_def)
  then have "SecretMount_Validate ex_mount_big = Some (UidTooHigh ''9223372036854775808'')"
    by (simp add: SecretMount_Validate_def) (simp add: ex_mount_big_def)
  then show ?thesis using u dec_value_big ParseUint_big by simp
qed

text \<open>
  Claim C6, amended. A uid or gid string passes exactly when it is empty or a decimal
  numeral of value at most \<open>2 ^ 63 - 1\<close>. An empty string yields no numeric value; a
  non-empty accepted one yields its decimal value. For a mount with a secret name and an
  acceptable container path, \<open>Validate\<close> succeeds exactly when both strings pass.
\<close>

theorem uid_gid_validation:
  "((\<exists>r. GetNumericUid m = Inr r) \<longleftrightarrow>
      Uid m = [] \<or> (is_decimal (Uid m) \<and> dec_value (Uid m) < 2 ^ 63)) \<and>
   ((\<exists>r. GetNumericGid m = Inr r) \<longleftrightarrow>
      Gid m = [] \<or> (is_decimal (Gid m) \<and> dec_value (Gid m) < 2 ^ 63)) \<and>
   (Uid m = [] \<longrightarrow> GetNumericUid m = Inr None) \<and>
   (Gid m = [] \<longrightarrow> GetNumericGid m = Inr None) \<and>
   (Uid m \<noteq> [] \<longrightarrow>
      (\<forall>r. GetNumericUid m = Inr r \<longrightarrow> (\<exists>v. r = Some v \<and> unat v = dec_value (Uid m)))) \<and>
   (Gid m \<noteq> [] \<longrightarrow>
      (\<forall>r. GetNumericGid m = Inr r \<longrightarrow> (\<exists>v. r = Some v \<and> unat v = dec_value (Gid m)))) \<and>
   (SecretName m \<noteq> [] \<and> (ContainerPath m = [] \<or> IsAbs (ContainerPath m)) \<longrightarrow>
      (SecretMount_Validate m = None \<longleftrightarrow>
         (Uid m = [] \<or> (is_decimal (Uid m) \<and> dec_value (Uid m) < 2 ^ 63)) \<and>
         (Gid m = [] \<or> (is_decimal (Gid m) \<and> dec_value (Gid m) < 2 ^ 63))))"
proof -
  have n: "unat (of_nat n :: 64 word) = n" if "n < 2 ^ 63" for n :: nat
  proof -
    have "n < 2 ^ 64" using that by simp
    then show ?thesis using unat_eq_iff_of_nat by blast
  qed
  have 1: "(\<exists>r. GetNumericUid m = Inr r) \<longleftrightarrow>
      Uid m = [] \<or> (is_decimal (Uid m) \<and> dec_value (Uid m) < 2 ^ 63)"
    using GetNumericUid_ok_iff [of m] by (simp add: id_string_ok_def)
  have 2: "(\<exists>r. GetNumericGid m = Inr r) \<longleftrightarrow>
      Gid m = [] \<or> (is_decimal (Gid m) \<and> dec_value (Gid m) < 2 ^ 63)"
    using GetNumericGid_ok_iff [of m] by (simp add: id_string_ok_def)
  have 3: "Uid m = [] \<longrightarrow> GetNumericUid m = Inr None"
    by (simp add: GetNumericUid_Inr)
  have 4: "Gid m = [] \<longrightarrow> GetNumericGid m = Inr None"
    by (simp add: GetNumericGid_Inr)
  have 5: "Uid m \<noteq> [] \<longrightarrow>
      (\<forall>r. GetNumericUid m = Inr r \<longrightarrow> (\<exists>v. r = Some v \<and> unat v = dec_value (Uid m)))"
    using n by (auto simp: GetNumericUid_Inr)
  have 6: "Gid m \<noteq> [] \<longrightarrow>
      (\<forall>r. GetNumericGid m = Inr r \<longrightarrow> (\<exists>v. r = Some v \<and> unat v = dec_value (Gid m)))"
    using n by (auto simp: GetNumericGid_Inr)
  have 7: "SecretName m \<noteq> [] \<and> (ContainerPath m = [] \<or> IsAbs (ContainerPath m)) \<longrightarrow>
      (SecretMount_Validate m = None \<longleftrightarrow>
         (Uid m = [] \<or> (is_decimal (Uid m) \<and> dec_value (Uid m) < 2 ^ 63)) \<and>
         (Gid m = [] \<or> (is_decimal (Gid m) \<and> dec_value (Gid m) < 2 ^ 63)))"
    by (simp add: SecretMount_Validate_None id_string_ok_def)
  show ?thesis using 1 2 3 4 5 6 7 by blast
qed

theorem uid_gid_validation_witness:
  "Uid (ex_mounts ! 0) = ''1000'' \<and> is_decimal ''1000'' \<and> dec_value ''1000'' = 1000 \<and>
   GetNumericUid (ex_mounts ! 0) = Inr (Some 1000) \<and>
   Gid (ex_mounts ! 1) = [] \<and> GetNumericGid (ex_mounts ! 1) = Inr None \<and>
   SecretMount_Validate (ex_mounts ! 0) = None"
proof -
  let ?m = "ex_mounts ! 0"
  have f: "Uid ?m = ''1000''" "Gid ?m = ''1000''" "SecretName ?m \<noteq> []"
    "IsAbs (ContainerPath ?m)" "Gid (ex_mounts ! 1) = []"
    by (simp_all add: ex_mounts_def IsAbs_def)
  note t0 = uid_gid_validation [of ?m]
  note t1 = uid_gid_validation [of "ex_mounts ! 1"]
  have "\<exists>r. GetNumericUid ?m = Inr r"
    using t0 f dec_value_1000 by simp
  then obtain r where r: "GetNumericUid ?m = Inr r" by blast
  then obtain v where v: "r = Some v" "unat v = dec_value (Uid ?m)"
    using t0 f(1) by fastforce
  then have "unat v = 1000" using f(1) dec_value_1000 by simp
  then have "v = 1000" by (simp add: word_unat_eq_iff)
  then have a: "GetNumericUid ?m = Inr (Some 1000)" using r v by simp
  have b: "GetNumericGid (ex_mounts ! 1) = Inr None" using t1 f(5) by blast
  have c: "SecretMount_Validate ?m = None"
    using t0 f dec_value_1000 by simp
  show ?thesis using a b c f dec_value_1000 by simp
qed

text \<open>
  Claim C7, as stated, fails: the listed failures leave out the uid and gid check. With
  well-formed specs and one mount that names a defined secret, has no container path
  and the uid \<open>root\<close>, none of the listed failures applies and yet validation fails.
\<close>

theorem validation_rejects_bad_uid:
  "ValidateSecretsAndMounts ex_specs [ex_mount_named] =
     Some (InvalidSecretMount (InvalidUid ''root'' ErrSyntax)) \<and>
   list_all (\<lambda>s. Name s \<noteq> []) ex_specs \<and> distinct (map Name ex_specs) \<and>
   SecretName ex_mount_named \<noteq> [] \<and> SecretName ex_mount_named \<in> Name ` set ex_specs \<and>
   ContainerPath ex_mount_named = []"
proof -
  have "digit_of CHR ''r'' = Some 27"
    by (simp add: digit_of_def lower_def)
  then have "ParseUint ''root'' = Inl ErrSyntax"
    by (simp add: ParseUint_def)
  then have "SecretMount_Validate ex_mount_named = Some (InvalidUid ''root'' ErrSyntax)"
    by (simp add: SecretMount_Validate_def GetNumericUid_def ex_mount_named_def)
  then have "ValidateSecretsAndMounts ex_specs [ex_mount_named] =
     Some (InvalidSecretMount (InvalidUid ''root'' ErrSyntax))"
    by (simp add: ValidateSecretsAndMounts_def ex_specs_def SecretSpec_Validate_def)
  then show ?thesis by (simp add: ex_specs_def ex_mount_named_def)
qed

text \<open>
  Claim C7, amended. Cross-validation succeeds exactly when every spec name is non-empty,
  no spec name repeats, and every mount has a non-empty secret name that is the name of
  a spec, acceptable uid and gid strings, and a container path that is empty or absolute.
  The error is the one of the first offending entry: the name-required error for an empty
  spec name, the duplicate-name error for the first repeat, and, on well-formed specs,
  the mount's own validation error or the dangling-reference error.
\<close>

theorem cross_validation:
  "(ValidateSecretsAndMounts specs mounts = None \<longleftrightarrow>
      (\<forall>s \<in> set specs. Name s \<noteq> []) \<and> distinct (map Name specs) \<and>
      (\<forall>m \<in> set mounts.
         SecretName m \<noteq> [] \<and> SecretName m \<in> Name ` set specs \<and>
         id_string_ok (Uid m) \<and> id_string_ok (Gid m) \<and>
         (ContainerPath m = [] \<or> IsAbs (ContainerPath m)))) \<and>
   (\<forall>pre s post. specs = pre @ s # post \<and> specs_ok pre \<and> Name s = [] \<longrightarrow>
      ValidateSecretsAndMounts specs mounts = Some (InvalidSecret SecretNameRequired)) \<and>
   (\<forall>pre s post. specs = pre @ s # post \<and> specs_ok pre \<and> Name s \<noteq> [] \<and>
        Name s \<in> Name ` set pre \<longrightarrow>
      ValidateSecretsAndMounts specs mounts = Some (DuplicateSecretName (Name s))) \<and>
   (\<forall>pre m post. specs_ok specs \<and> mounts = pre @ m # post \<and> list_all (mount_ok specs) pre \<longrightarrow>
      (SecretName m = [] \<longrightarrow>
         ValidateSecretsAndMounts specs mounts = Some (InvalidSecretMount MountSourceRequired)) \<and>
      (SecretName m \<noteq> [] \<and> \<not> id_string_ok (Uid m) \<longrightarrow>
         (\<exists>e. ValidateSecretsAndMounts specs mounts = Some (InvalidSecretMount e) \<and>
              GetNumericUid m = Inl e)) \<and>
      (SecretName m \<noteq> [] \<and> id_string_ok (Uid m) \<and> \<not> id_string_ok (Gid m) \<longrightarrow>
         (\<exists>e. ValidateSecretsAndMounts specs mounts = Some (InvalidSecretMount e) \<and>
              GetNumericGid m = Inl e)) \<and>
      (SecretName m \<noteq> [] \<and> id_string_ok (Uid m) \<and> id_string_ok (Gid m) \<and>
         ContainerPath m \<noteq> [] \<and> \<not> IsAbs (ContainerPath m) \<longrightarrow>
         ValidateSecretsAndMounts specs mounts = Some (InvalidSecretMount ContainerPathNotAbsolute)) \<and>
      (SecretMount_Validate m = None \<and> SecretName m \<notin> Name ` set specs \<longrightarrow>
         ValidateSecretsAndMounts specs mounts = Some (MountSourceUndefined (SecretName m))))"
proof -
  have 1: "ValidateSecretsAndMounts specs mounts = None \<longleftrightarrow>
      (\<forall>s \<in> set specs. Name s \<noteq> []) \<and> distinct (map Name specs) \<and>
      (\<forall>m \<in> set mounts.
         SecretName m \<noteq> [] \<and> SecretName m \<in> Name ` set specs \<and>
         id_string_ok (Uid m) \<and> id_string_ok (Gid m) \<and>
         (ContainerPath m = [] \<or> IsAbs (ContainerPath m)))"
    by (simp add: Validate_None_iff specs_ok_def mount_ok_def list_all_iff)
  have 2: "\<forall>pre s post. specs = pre @ s # post \<and> specs_ok pre \<and> Name s = [] \<longrightarrow>
      ValidateSecretsAndMounts specs mounts = Some (InvalidSecret SecretNameRequired)"
    using Validate_spec_error(1) by blast
  have 3: "\<forall>pre s post. specs = pre @ s # post \<and> specs_ok pre \<and> Name s \<noteq> [] \<and>
        Name s \<in> Name ` set pre \<longrightarrow>
      ValidateSecretsAndMounts specs mounts = Some (DuplicateSecretName (Name s))"
    using Validate_spec_error(2) by blast
  have 4: "(SecretName m = [] \<longrightarrow>
         ValidateSecretsAndMounts specs mounts = Some (InvalidSecretMount MountSourceRequired)) \<and>
      (SecretName m \<noteq> [] \<and> \<not> id_string_ok (Uid m) \<longrightarrow>
         (\<exists>e. ValidateSecretsAndMounts specs mounts = Some (InvalidSecretMount e) \<and>
              GetNumericUid m = Inl e)) \<and>
      (SecretName m \<noteq> [] \<and> id_string_ok (Uid m) \<and> \<not> id_string_ok (Gid m) \<longrightarrow>
         (\<exists>e. ValidateSecretsAndMounts specs mounts = Some (InvalidSecretMount e) \<and>
              GetNumericGid m = Inl e)) \<and>
      (SecretName m \<noteq> [] \<and> id_string_ok (Uid m) \<and> id_string_ok (Gid m) \<and>
         ContainerPath m \<noteq> [] \<and> \<not> IsAbs (ContainerPath m) \<longrightarrow>
         ValidateSecretsAndMounts specs mounts = Some (InvalidSecretMount ContainerPathNotAbsolute)) \<and>
      (SecretMount_Validate m = None \<and> SecretName m \<notin> Name ` set specs \<longrightarrow>
         ValidateSecretsAndMounts specs mounts = Some (MountSourceUndefined (SecretName m)))"
    if h: "specs_ok specs" "mounts = pre @ m # post" "list_all (mount_ok specs) pre"
    for pre m post
  proof -
    note e = Validate_mount_error [OF h]
    have a: "SecretName m = [] \<longrightarrow>
         ValidateSecretsAndMounts specs mounts = Some (InvalidSecretMount MountSourceRequired)"
      using e by (simp add: SecretMount_Validate_def)
    have b: "SecretName m \<noteq> [] \<and> \<not> id_string_ok (Uid m) \<longrightarrow>
         (\<exists>e. ValidateSecretsAndMounts specs mounts = Some (InvalidSecretMount e) \<and>
              GetNumericUid m = Inl e)"
      using e SecretMount_Validate_Some(1) [of m] by auto
    have c: "SecretName m \<noteq> [] \<and> id_string_ok (Uid m) \<and> \<not> id_string_ok (Gid m) \<longrightarrow>
         (\<exists>e. ValidateSecretsAndMounts specs mounts = Some (InvalidSecretMount e) \<and>
              GetNumericGid m = Inl e)"
      using e SecretMount_Validate_Some(2) [of m] by auto
    have d: "SecretName m \<noteq> [] \<and> id_string_ok (Uid m) \<and> id_string_ok (Gid m) \<and>
         ContainerPath m \<noteq> [] \<and> \<not> IsAbs (ContainerPath m) \<longrightarrow>
         ValidateSecretsAndMounts specs mounts = Some (InvalidSecretMount ContainerPathNotAbsolute)"
      using e SecretMount_Validate_Some(3) [of m] by auto
    have f: "SecretMount_Validate m = None \<and> SecretName m \<notin> Name ` set specs \<longrightarrow>
         ValidateSecretsAndMounts specs mounts = Some (MountSourceUndefined (SecretName m))"
      using e by simp
    show ?thesis using a b c d f by blast
  qed
  show ?thesis using 1 2 3 4 by blast
qed

theorem cross_validation_witness:
  "ValidateSecretsAndMounts ex_specs ex_mounts = None \<and>
   ValidateSecretsAndMounts (ex_specs @ [ex_specs ! 0]) ex_mounts =
     Some (DuplicateSecretName ''app-secret'') \<and>
   ValidateSecretsAndMounts ex_specs [ex_mount_stray] = Some (MountSourceUndefined ''ghost'')"
proof -
  have ok: "id_string_ok ''1000''" "id_string_ok []"
    using dec_value_1000 by (simp_all add: id_string_ok_def)
  have so: "specs_ok ex_specs"
    by (simp add: specs_ok_def ex_specs_def)
  have a: "ValidateSecretsAndMounts ex_specs ex_mounts = None"
  proof -
    have "(\<forall>s \<in> set ex_specs. Name s \<noteq> []) \<and> distinct (map Name ex_specs) \<and>
      (\<forall>m \<in> set ex_mounts.
         SecretName m \<noteq> [] \<and> SecretName m \<in> Name ` set ex_specs \<and>
         id_string_ok (Uid m) \<and> id_string_ok (Gid m) \<and>
         (ContainerPath m = [] \<or> IsAbs (ContainerPath m)))"
      using ok by (simp add: ex_specs_def ex_mounts_def IsAbs_def)
    then show ?thesis using cross_validation [of ex_specs ex_mounts] by blast
  qed
  have b: "ValidateSecretsAndMounts (ex_specs @ [ex_specs ! 0]) ex_mounts =
     Some (DuplicateSecretName ''app-secret'')"
  proof -
    have "ex_specs @ [ex_specs ! 0] = ex_specs @ (ex_specs ! 0) # [] \<and> specs_ok ex_specs \<and>
        Name (ex_specs ! 0) \<noteq> [] \<and> Name (ex_specs ! 0) \<in> Name ` set ex_specs"
      using so by (simp add: ex_specs_def)
    then have "ValidateSecretsAndMounts (ex_specs @ [ex_specs ! 0]) ex_mounts =
        Some (DuplicateSecretName (Name (ex_specs ! 0)))"
      using cross_validation [of "ex_specs @ [ex_specs ! 0]" ex_mounts] by blast
    then show ?thesis by (simp add: ex_specs_def)
  qed
  have c: "ValidateSecretsAndMounts ex_specs [ex_mount_stray] = Some (MountSourceUndefined ''ghost'')"
  proof -
    have "SecretMount_Validate ex_mount_stray = None"
      using ok by (simp add: SecretMount_Validate_None ex_mount_stray_def IsAbs_def)
    then have "specs_ok ex_specs \<and> [ex_mount_stray] = [] @ ex_mount_stray # [] \<and>
        list_all (mount_ok ex_specs) [] \<and> SecretMount_Validate ex_mount_stray = None \<and>
        SecretName ex_mount_stray \<notin> Name ` set ex_specs"
      using so by (simp add: ex_specs_def ex_mount_stray_def)
    then have "ValidateSecretsAndMounts ex_specs [ex_mount_stray] =
        Some (MountSourceUndefined (SecretName ex_mount_stray))"
      using cross_validation [of ex_specs "[ex_mount_stray]"] by blast
    then show ?thesis by (simp add: ex_mount_stray_def)
  qed
  show ?thesis using a b c by simp
qed

text \<open>
  Claim C8. When resolution succeeds, the mount built for a reference without a target
  path has the container path \<open>/run/secrets/\<close> followed by the reference's source name;
  a reference with a target path keeps that path unchanged.
\<close>

theorem default_container_path:
  assumes "secretSpecsFromCompose env secrets refs wd = (specs, mounts, None)"
    and "i < length refs"
  shows "i < length mounts \<and>
         (Target (refs ! i) = [] \<longrightarrow>
            ContainerPath (mounts ! i) = ''/run/secrets/'' @ Source (refs ! i)) \<and>
         (Target (refs ! i) \<noteq> [] \<longrightarrow> ContainerPath (mounts ! i) = Target (refs ! i))"
proof -
  have "mounts = map reference_mount refs"
    using assms(1) by (rule secretSpecsFromCompose_ok)
  then show ?thesis using assms(2) by (simp add: reference_mount_def)
qed

theorem default_container_path_witness:
  "secretSpecsFromCompose ex_env ex_secrets [ex_ref_file, ex_ref_inline] ''/app'' =
     (ex_specs, ex_mounts, None) \<and>
   Target ([ex_ref_file, ex_ref_inline] ! 0) = [] \<and>
   ContainerPath (ex_mounts ! 0) = ''/run/secrets/app-secret'' \<and>
   Target ([ex_ref_file, ex_ref_inline] ! 1) \<noteq> [] \<and>
   ContainerPath (ex_mounts ! 1) = ''/etc/token''"
proof -
  note r = ex_resolution
  have "ContainerPath (ex_mounts ! 0) = ''/run/secrets/'' @ Source ([ex_ref_file, ex_ref_inline] ! 0)"
    using default_container_path [OF r, of 0] by (simp add: ex_ref_file_def)
  moreover have "ContainerPath (ex_mounts ! 1) = Target ([ex_ref_file, ex_ref_inline] ! 1)"
    using default_container_path [OF r, of 1] by (simp add: ex_ref_inline_def)
  ultimately show ?thesis using r by (simp add: ex_ref_file_def ex_ref_inline_def)
qed

text \<open>
  Claim C9 at a deploy block whose placement has an empty, non-nil list of constraints and
  no preferences: the placement warning is produced although neither list has an
  element. (The count lemma above has \<open>Constraints\<close> compared with \<open>None\<close>, where
  \<open>Preferences\<close> is compared with the empty list.)
\<close>

theorem placement_warning_on_empty_constraints:
  "Constraints (Placement ex_deploy_empty_constraints) = Some [] \<and>
   Preferences (Placement ex_deploy_empty_constraints) = [] \<and>
   checkDeployWarnings ''web'' ex_deploy_empty_constraints =
     [\<lparr>Service = ''web'', Key = ''deploy.placement'',
       Message = '''deploy.placement' is not supported. Use 'x-machines' extension for machine placement.''\<rparr>]"
  by (simp add: ex_deploy_empty_constraints_def checkDeployWarnings_def warn_if_def)

theorem placement_warning_on_empty_constraints_witness:
  "map Key (checkDeployWarnings ''web'' ex_deploy_empty_constraints) = [''deploy.placement''] \<and>
   the (Constraints (Placement ex_deploy_empty_constraints)) = []"
  using placement_warning_on_empty_constraints by simp

text \<open>
  Claim C10. When resolution succeeds, the spec list and the mount list are as long as
  the list of references, the i-th spec's name and the i-th mount's secret name are the
  i-th reference's source name, and every mount has a non-empty container path.
\<close>

theorem resolution_aligned_with_references:
  assumes "secretSpecsFromCompose env secrets refs wd = (specs, mounts, None)"
  shows "length specs = length refs \<and> length mounts = length refs \<and>
         (\<forall>i < length refs.
            Name (specs ! i) = Source (refs ! i) \<and>
            SecretName (mounts ! i) = Source (refs ! i) \<and>
            ContainerPath (mounts ! i) \<noteq> [])"
proof -
  have s: "specs = map (reference_spec env secrets wd) refs"
    and m: "mounts = map reference_mount refs"
    using assms by (rule secretSpecsFromCompose_ok)+
  show ?thesis
    unfolding s m by (simp add: reference_spec_def reference_mount_def)
qed

theorem resolution_aligned_with_references_witness:
  "secretSpecsFromCompose ex_env ex_secrets [ex_ref_file, ex_ref_inline] ''/app'' =
     (ex_specs, ex_mounts, None) \<and>
   length ex_specs = 2 \<and> length ex_mounts = 2 \<and>
   Name (ex_specs ! 1) = ''token'' \<and> SecretName (ex_mounts ! 1) = ''token'' \<and>
   ContainerPath (ex_mounts ! 1) \<noteq> []"
proof -
  note r = ex_resolution
  from resolution_aligned_with_references [OF r]
  have "length ex_specs = length [ex_ref_file, ex_ref_inline]"
    and "length ex_mounts = length [ex_ref_file, ex_ref_inline]"
    and "Name (ex_specs ! 1) = Source ([ex_ref_file, ex_ref_inline] ! 1) \<and>
         SecretName (ex_mounts ! 1) = Source ([ex_ref_file, ex_ref_inline] ! 1) \<and>
         ContainerPath (ex_mounts ! 1) \<noteq> []"
    by simp_all
  then show ?thesis using r by (simp add: ex_ref_inline_def)
qed

end
